theory Spec2Isabelle
  imports Main "HOL-Library.Sublist"
begin

section \<open>Python values used by \<open>epub_to_text.py\<close>\<close>

text \<open>
  A Python \<open>str\<close> is a sequence of Unicode code points, so \<open>len\<close> is \<open>length\<close>;
  \<open>bytes\<close> is a sequence of octets. ASCII literals of the source are written with \<open>u\<close>.
\<close>

type_synonym ustr = "nat list"

type_synonym bytes = "nat list"

definition u :: "string \<Rightarrow> ustr" where
  "u s = map of_char s"

text \<open>
  The characters for which \<open>str.isspace\<close> holds. \<open>str.strip()\<close> and the class \<open>\s\<close> of
  a \<open>str\<close> pattern of \<open>re\<close> both use this set.
\<close>

definition isspace :: "nat \<Rightarrow> bool" where
  "isspace c \<longleftrightarrow>
     (9 \<le> c \<and> c \<le> 13) \<or> (28 \<le> c \<and> c \<le> 32) \<or> c = 133 \<or> c = 160 \<or>
     c = 5760 \<or> (8192 \<le> c \<and> c \<le> 8202) \<or> c = 8232 \<or> c = 8233 \<or>
     c = 8239 \<or> c = 8287 \<or> c = 12288"

text \<open>\<open>s.strip()\<close>\<close>

definition strip :: "ustr \<Rightarrow> ustr" where
  "strip s = rev (dropWhile isspace (rev (dropWhile isspace s)))"

text \<open>\<open>str(n)\<close> for a non-negative integer, as the f-strings of the source format it.\<close>

function str_nat :: "nat \<Rightarrow> ustr" where
  "str_nat n = (if n < 10 then [48 + n] else str_nat (n div 10) @ [48 + n mod 10])"
  by pat_completeness auto
termination
  by (relation "measure (\<lambda>n. n)") auto

declare str_nat.simps [simp del]

text \<open>\<open>sep.join(parts)\<close>\<close>

fun join :: "ustr \<Rightarrow> ustr list \<Rightarrow> ustr" where
  "join sep [] = []"
| "join sep [x] = x"
| "join sep (x # y # ys) = x @ sep @ join sep (y # ys)"

text \<open>
  \<open>s.encode('utf-8')\<close>, the bytes that a file opened with \<open>encoding='utf-8'\<close> receives. A
  surrogate (\<open>U+D800\<close> to \<open>U+DFFF\<close>) has no encoding: the codec raises
  \<open>UnicodeEncodeError\<close>.
\<close>

definition utf8_encode_char :: "nat \<Rightarrow> bytes" where
  "utf8_encode_char c =
     (if c < 128 then [c]
      else if c < 2048 then [192 + c div 64, 128 + c mod 64]
      else if c < 65536 then [224 + c div 4096, 128 + c div 64 mod 64, 128 + c mod 64]
      else [240 + c div 262144, 128 + c div 4096 mod 64, 128 + c div 64 mod 64,
            128 + c mod 64])"

definition utf8_encode :: "ustr \<Rightarrow> bytes" where
  "utf8_encode s = concat (map utf8_encode_char s)"

definition encodable :: "ustr \<Rightarrow> bool" where
  "encodable s \<longleftrightarrow> list_all (\<lambda>c. c < 55296 \<or> 57343 < c) s"

section \<open>The three regular expressions of the source\<close>

text \<open>
  \<open>re.sub(r'\s+', ' ', text)\<close>: scanning from the left, every maximal run of whitespace
  (the quantifier is greedy) is replaced by one space.
\<close>

function sub_ws :: "ustr \<Rightarrow> ustr" where
  "sub_ws [] = []"
| "sub_ws (c # cs) =
     (if isspace c then 32 # sub_ws (dropWhile isspace cs) else c # sub_ws cs)"
  by pat_completeness auto
termination
  by (relation "measure length") (auto simp: length_dropWhile_le less_Suc_eq_le)

text \<open>
  \<open>re.sub(r'\n\s*\n', '\n\n', text)\<close>. At a newline, the greedy \<open>\s*\<close> takes the whole
  whitespace run that follows and backtracks to the last newline of that run; when the run
  holds no newline there is no match at this position. \<open>after_last_nl r\<close> is the index just
  past the last newline of \<open>r\<close>.
\<close>

fun after_last_nl :: "ustr \<Rightarrow> nat" where
  "after_last_nl [] = 0"
| "after_last_nl (c # cs) =
     (if 10 \<in> set cs then Suc (after_last_nl cs) else if c = 10 then 1 else 0)"

function sub_para :: "ustr \<Rightarrow> ustr" where
  "sub_para [] = []"
| "sub_para (c # cs) =
     (if c = 10 \<and> 10 \<in> set (takeWhile isspace cs)
      then 10 # 10 # sub_para (drop (after_last_nl (takeWhile isspace cs)) cs)
      else c # sub_para cs)"
  by pat_completeness auto
termination
  by (relation "measure length") auto

text \<open>
  \<open>re.search(r'chapter|prologue|epilogue', s)\<close>: an alternation of literals. The search
  tries every start position from the left and, at each, the alternatives in order; the
  result is the span of the first match, or \<open>None\<close>.
\<close>

fun match_alts :: "ustr list \<Rightarrow> ustr \<Rightarrow> ustr option" where
  "match_alts [] s = None"
| "match_alts (a # as) s = (if prefix a s then Some a else match_alts as s)"

fun search_from :: "ustr list \<Rightarrow> nat \<Rightarrow> ustr \<Rightarrow> (nat \<times> nat) option" where
  "search_from alts i [] =
     (case match_alts alts [] of Some a \<Rightarrow> Some (i, i + length a) | None \<Rightarrow> None)"
| "search_from alts i (c # cs) =
     (case match_alts alts (c # cs) of
        Some a \<Rightarrow> Some (i, i + length a)
      | None \<Rightarrow> search_from alts (Suc i) cs)"

definition re_search :: "ustr list \<Rightarrow> ustr \<Rightarrow> (nat \<times> nat) option" where
  "re_search alts s = search_from alts 0 s"

definition chapter_keywords :: "ustr list" where
  "chapter_keywords = [u ''chapter'', u ''prologue'', u ''epilogue'']"

section \<open>The parse tree of BeautifulSoup\<close>

text \<open>
  An element with its name, attributes and contents; a string that \<open>get_text\<close> collects
  (\<open>NavigableString\<close>, \<open>CData\<close>); and a string that it skips (a comment, a doctype, a
  declaration, a processing instruction).
\<close>

datatype node =
    Tag ustr "(ustr \<times> ustr) list" "node list"
  | Text ustr
  | Other ustr

text \<open>\<open>element.get_text()\<close>: the strings below the element, in document order, joined.\<close>

fun get_text :: "node \<Rightarrow> ustr" where
  "get_text (Tag name attrs contents) = concat (map get_text contents)"
| "get_text (Text s) = s"
| "get_text (Other s) = []"

text \<open>\<open>soup.get_text()\<close> of the whole document.\<close>

definition soup_get_text :: "node list \<Rightarrow> ustr" where
  "soup_get_text soup = concat (map get_text soup)"

text \<open>
  \<open>soup.find_all(names)\<close>, also written \<open>soup(names)\<close>: every element below the root with
  one of the names, in document order; an element comes before the elements it contains.
\<close>

fun matching :: "ustr list \<Rightarrow> node \<Rightarrow> node list" where
  "matching names (Tag name attrs contents) =
     (if name \<in> set names then [Tag name attrs contents] else []) @
     concat (map (matching names) contents)"
| "matching names (Text s) = []"
| "matching names (Other s) = []"

definition find_all :: "ustr list \<Rightarrow> node list \<Rightarrow> node list" where
  "find_all names soup = concat (map (matching names) soup)"

text \<open>
  The tree after \<open>for element in soup(names): element.decompose()\<close>: each element found is
  taken out of its parent together with everything below it.
\<close>

fun decompose :: "ustr list \<Rightarrow> node \<Rightarrow> node list" where
  "decompose names (Tag name attrs contents) =
     (if name \<in> set names then []
      else [Tag name attrs (concat (map (decompose names) contents))])"
| "decompose names (Text s) = [Text s]"
| "decompose names (Other s) = [Other s]"

definition decompose_all :: "ustr list \<Rightarrow> node list \<Rightarrow> node list" where
  "decompose_all names soup = concat (map (decompose names) soup)"

section \<open>The book, the file system and the libraries\<close>

datatype error =
    FileNotFoundError ustr
  | IndexError ustr
  | UnicodeDecodeError ustr
  | UnicodeEncodeError ustr
  | EpubError ustr
  | OSError ustr

text \<open>\<open>str(e)\<close>\<close>

fun str_error :: "error \<Rightarrow> ustr" where
  "str_error (FileNotFoundError m) = m"
| "str_error (IndexError m) = m"
| "str_error (UnicodeDecodeError m) = m"
| "str_error (UnicodeEncodeError m) = m"
| "str_error (EpubError m) = m"
| "str_error (OSError m) = m"

datatype item_type =
    ITEM_UNKNOWN | ITEM_IMAGE | ITEM_STYLE | ITEM_SCRIPT | ITEM_NAVIGATION | ITEM_VECTOR
  | ITEM_FONT | ITEM_VIDEO | ITEM_AUDIO | ITEM_DOCUMENT | ITEM_COVER | ITEM_SMIL

record item =
  get_type :: item_type
  get_content :: bytes

text \<open>
  \<open>get_metadata namespace name\<close> is a list of pairs of a value (which may be \<open>None\<close>) and
  its attributes.
\<close>

record book =
  get_metadata :: "ustr \<Rightarrow> ustr \<Rightarrow> (ustr option \<times> (ustr \<times> ustr) list) list"
  get_items :: "item list"

text \<open>The file system: the directories, and the bytes of every file.\<close>

record world =
  dirs :: "ustr set"
  files :: "ustr \<rightharpoonup> bytes"

text \<open>\<open>os.path.exists(path)\<close>\<close>

definition exists :: "world \<Rightarrow> ustr \<Rightarrow> bool" where
  "exists w path \<longleftrightarrow> path \<in> dirs w \<or> files w path \<noteq> None"

text \<open>
  What the operating system does to the three calls that write: \<open>os.makedirs\<close> may fail,
  \<open>open\<close> may fail, and the write (with the flush when the file is closed) may fail after
  some bytes have reached the file.
\<close>

datatype io_fault = NoFault | MakedirsFails ustr | OpenFails ustr | WriteFails nat ustr

text \<open>
  The collaborators that the program calls and does not define: \<open>str.lower\<close>, the HTML
  parser, \<open>bytes.decode('utf-8')\<close>, \<open>epub.read_epub\<close>,
  \<open>os.path.dirname(os.path.abspath(path))\<close> with the ancestors that \<open>os.makedirs\<close> creates,
  the message of the codec's \<open>UnicodeEncodeError\<close> for a text, and the behaviour of the
  operating system.
\<close>

record env =
  lower :: "ustr \<Rightarrow> ustr"
  BeautifulSoup :: "ustr \<Rightarrow> node list"
  decode :: "bytes \<Rightarrow> error + ustr"
  read_epub :: "world \<Rightarrow> ustr \<Rightarrow> error + book"
  makedirs_targets :: "ustr \<Rightarrow> ustr list"
  encode_error_text :: "ustr \<Rightarrow> ustr"
  fault :: io_fault

section \<open>\<open>epub_to_text\<close>\<close>

text \<open>Lines 47 and 48: the whitespace clean-up of \<open>clean_html_content\<close>.\<close>

definition normalize_ws :: "ustr \<Rightarrow> ustr" where
  "normalize_ws text =
     (let text = strip (sub_ws text);
          text = sub_para text
      in text)"

text \<open>The nested function \<open>clean_html_content\<close> (lines 34 to 50).\<close>

definition clean_html_content :: "env \<Rightarrow> ustr \<Rightarrow> ustr" where
  "clean_html_content e html_content =
     (let soup = BeautifulSoup e html_content;
          soup = decompose_all [u ''script'', u ''style''] soup;
          text = soup_get_text soup
      in normalize_ws text)"

text \<open>Line 59: \<open>bool(re.search(...))\<close>; a match object is true, \<open>None\<close> is false.\<close>

definition is_chapter :: "env \<Rightarrow> ustr \<Rightarrow> bool" where
  "is_chapter e content \<longleftrightarrow> re_search chapter_keywords (lower e content) \<noteq> None"

text \<open>Lines 73 to 77: the loop over the headers, left at the first usable one.\<close>

fun first_title :: "node list \<Rightarrow> ustr option" where
  "first_title [] = None"
| "first_title (header # headers) =
     (let header_text = strip (get_text header)
      in if header_text \<noteq> [] \<and> length header_text < 100 then Some header_text
         else first_title headers)"

text \<open>Lines 69 to 77.\<close>

definition chapter_title :: "env \<Rightarrow> ustr \<Rightarrow> ustr option" where
  "chapter_title e content =
     first_title (find_all [u ''h1'', u ''h2'', u ''h3''] (BeautifulSoup e content))"

text \<open>The two f-strings of lines 82 and 84.\<close>

definition titled_marker :: "nat \<Rightarrow> ustr \<Rightarrow> ustr" where
  "titled_marker chapter_number title =
     [10, 10] @ u ''# Chapter '' @ str_nat chapter_number @ u '': '' @ title @ [10, 10]"

definition plain_marker :: "nat \<Rightarrow> ustr" where
  "plain_marker chapter_number =
     [10, 10] @ u ''# Chapter '' @ str_nat chapter_number @ [10, 10]"

text \<open>Lines 81 to 84: \<open>if chapter_title:\<close> is false for \<open>None\<close> and for the empty string.\<close>

fun chapter_marker :: "nat \<Rightarrow> ustr option \<Rightarrow> ustr" where
  "chapter_marker chapter_number None = plain_marker chapter_number"
| "chapter_marker chapter_number (Some title) =
     (if title \<noteq> [] then titled_marker chapter_number title
      else plain_marker chapter_number)"

text \<open>
  The body of the loop (lines 54 to 88) on the state \<open>(chapter_number, full_text)\<close>.
\<close>

definition process_item ::
  "env \<Rightarrow> item \<Rightarrow> nat \<times> ustr list \<Rightarrow> error + (nat \<times> ustr list)" where
  "process_item e it st =
     (case st of (chapter_number, full_text) \<Rightarrow>
        if get_type it = ITEM_DOCUMENT then
          (case decode e (get_content it) of
             Inl err \<Rightarrow> Inl err
           | Inr content \<Rightarrow>
               (let chapter = is_chapter e content;
                    text = clean_html_content e content
                in if length (strip text) < 100 then Inr (chapter_number, full_text)
                   else
                     (let title = chapter_title e content
                      in if chapter
                         then Inr (chapter_number + 1,
                                   full_text @ [chapter_marker chapter_number title] @ [text])
                         else Inr (chapter_number, full_text @ [text]))))
        else Inr (chapter_number, full_text))"

text \<open>The loop of line 53; an exception leaves it.\<close>

fun process_items ::
  "env \<Rightarrow> item list \<Rightarrow> nat \<times> ustr list \<Rightarrow> error + (nat \<times> ustr list)" where
  "process_items e [] st = Inr st"
| "process_items e (it # its) st =
     (case process_item e it st of
        Inl err \<Rightarrow> Inl err
      | Inr st' \<Rightarrow> process_items e its st')"

text \<open>\<open>f"{value}"\<close> of a metadata value: \<open>None\<close> is formatted as the word \<open>None\<close>.\<close>

fun format_value :: "ustr option \<Rightarrow> ustr" where
  "format_value None = u ''None''"
| "format_value (Some s) = s"

text \<open>Line 32.\<close>

definition title_line :: "ustr \<Rightarrow> ustr" where
  "title_line book_title = u ''# '' @ book_title @ [10, 10]"

text \<open>
  Lines 91 to 95: the directory, then \<open>open(output_path, 'w', encoding='utf-8')\<close>, which
  creates the file or empties it, then the write. \<open>f.write\<close> encodes the text before any
  byte is written; a write that fails leaves the bytes that had reached the file, a cut
  that may fall inside a multi-byte character.
\<close>

definition write_output :: "env \<Rightarrow> world \<Rightarrow> ustr \<Rightarrow> ustr \<Rightarrow> error option \<times> world" where
  "write_output e w output_path data =
     (case fault e of
        MakedirsFails m \<Rightarrow> (Some (OSError m), w)
      | OpenFails m \<Rightarrow>
          (Some (OSError m), w\<lparr>dirs := dirs w \<union> set (makedirs_targets e output_path)\<rparr>)
      | WriteFails k m \<Rightarrow>
          if \<not> encodable data
          then (Some (UnicodeEncodeError (encode_error_text e data)),
                w\<lparr>dirs := dirs w \<union> set (makedirs_targets e output_path),
                  files := (files w)(output_path \<mapsto> [])\<rparr>)
          else (Some (OSError m),
                w\<lparr>dirs := dirs w \<union> set (makedirs_targets e output_path),
                  files := (files w)(output_path \<mapsto> take k (utf8_encode data))\<rparr>)
      | NoFault \<Rightarrow>
          if \<not> encodable data
          then (Some (UnicodeEncodeError (encode_error_text e data)),
                w\<lparr>dirs := dirs w \<union> set (makedirs_targets e output_path),
                  files := (files w)(output_path \<mapsto> [])\<rparr>)
          else (None,
                w\<lparr>dirs := dirs w \<union> set (makedirs_targets e output_path),
                  files := (files w)(output_path \<mapsto> utf8_encode data)\<rparr>))"

definition success_message :: "ustr \<Rightarrow> ustr \<Rightarrow> ustr" where
  "success_message book_title output_path =
     u ''Successfully converted '' @ [39] @ book_title @ [39] @
     u '' to text format at '' @ output_path"

definition epub_to_text :: "env \<Rightarrow> world \<Rightarrow> ustr \<Rightarrow> ustr \<Rightarrow> (error + ustr) \<times> world" where
  "epub_to_text e w epub_path output_path =
     (if \<not> exists w epub_path
      then (Inl (FileNotFoundError (u ''EPUB file not found: '' @ epub_path)), w)
      else
        (case read_epub e w epub_path of
           Inl err \<Rightarrow> (Inl err, w)
         | Inr bk \<Rightarrow>
             (case get_metadata bk (u ''DC'') (u ''title'') of
                [] \<Rightarrow> (Inl (IndexError (u ''list index out of range'')), w)
              | entry # _ \<Rightarrow>
                  (let book_title = format_value (fst entry)
                   in case process_items e (get_items bk) (1, [title_line book_title]) of
                        Inl err \<Rightarrow> (Inl err, w)
                      | Inr (chapter_number, full_text) \<Rightarrow>
                          (case write_output e w output_path (join [10] full_text) of
                             (Some err, w') \<Rightarrow> (Inl err, w')
                           | (None, w') \<Rightarrow>
                               (Inr (success_message book_title output_path), w'))))))"

section \<open>\<open>main\<close>\<close>

record args =
  arg_input :: ustr
  arg_output :: ustr
  arg_verbose :: bool

record outcome =
  exit_code :: int
  stdout :: "ustr list"
  stderr :: "ustr list"
  final :: world

text \<open>Line 135 and 136: the handler of \<open>except Exception\<close>.\<close>

definition report :: "ustr list \<Rightarrow> error \<Rightarrow> world \<Rightarrow> outcome" where
  "report printed err w =
     \<lparr>exit_code = 1, stdout = printed, stderr = [u ''Error: '' @ str_error err], final = w\<rparr>"

text \<open>Lines 124 to 136, after the arguments have been parsed.\<close>

definition main :: "env \<Rightarrow> world \<Rightarrow> args \<Rightarrow> outcome" where
  "main e w a =
     (case epub_to_text e w (arg_input a) (arg_output a) of
        (Inl err, w') \<Rightarrow> report [] err w'
      | (Inr result, w') \<Rightarrow>
          if arg_verbose a then
            (case files w' (arg_output a) of
               None \<Rightarrow>
                 report [result, [10] @ u ''Input file: '' @ arg_input a,
                         u ''Output file: '' @ arg_output a]
                   (FileNotFoundError
                      (u ''[Errno 2] No such file or directory: '' @ [39] @ arg_output a @ [39]))
                   w'
             | Some d \<Rightarrow>
                 \<lparr>exit_code = 0,
                  stdout = [result, [10] @ u ''Input file: '' @ arg_input a,
                            u ''Output file: '' @ arg_output a,
                            u ''File size: '' @ str_nat (length d) @ u '' bytes''],
                  stderr = [], final = w'\<rparr>)
          else \<lparr>exit_code = 0, stdout = [result], stderr = [], final = w'\<rparr>)"

section \<open>Notions of the specification\<close>

text \<open>
  The collapsed-whitespace invariant of an extracted section: every maximal run of
  whitespace has fewer than two characters or is a paragraph break of exactly two newlines.
\<close>

function collapsed :: "ustr \<Rightarrow> bool" where
  "collapsed [] = True"
| "collapsed (c # cs) =
     (if isspace c
      then (length (c # takeWhile isspace cs) < 2 \<or> c # takeWhile isspace cs = [10, 10]) \<and>
           collapsed (dropWhile isspace cs)
      else collapsed cs)"
  by pat_completeness auto
termination
  by (relation "measure length") (auto simp: length_dropWhile_le less_Suc_eq_le)

text \<open>
  A stronger form used in the proofs: every whitespace character is a space and is not
  followed by whitespace.
\<close>

fun tidy :: "ustr \<Rightarrow> bool" where
  "tidy [] = True"
| "tidy (c # cs) =
     ((isspace c \<longrightarrow> c = 32 \<and> (cs = [] \<or> \<not> isspace (hd cs))) \<and> tidy cs)"

text \<open>
  The visible text of a node: the strings outside \<open>script\<close> and \<open>style\<close> elements, in
  document order.
\<close>

fun visible_text :: "node \<Rightarrow> ustr" where
  "visible_text (Tag name attrs contents) =
     (if name = u ''script'' \<or> name = u ''style'' then []
      else concat (map visible_text contents))"
| "visible_text (Text s) = s"
| "visible_text (Other s) = []"

text \<open>A node with the contents of every \<open>script\<close> and \<open>style\<close> element emptied.\<close>

fun without_script_content :: "node \<Rightarrow> node" where
  "without_script_content (Tag name attrs contents) =
     (if name = u ''script'' \<or> name = u ''style'' then Tag name attrs []
      else Tag name attrs (map without_script_content contents))"
| "without_script_content (Text s) = Text s"
| "without_script_content (Other s) = Other s"

text \<open>A heading that the title loop accepts.\<close>

definition usable_header :: "node \<Rightarrow> bool" where
  "usable_header header \<longleftrightarrow>
     strip (get_text header) \<noteq> [] \<and> length (strip (get_text header)) < 100"

text \<open>
  A document item that is kept (its normalized text has at least 100 characters), its text
  and its title; a kept item that the keyword heuristic classifies as a chapter.
\<close>

definition kept :: "env \<Rightarrow> item \<Rightarrow> bool" where
  "kept e it \<longleftrightarrow>
     get_type it = ITEM_DOCUMENT \<and>
     (case decode e (get_content it) of
        Inl err \<Rightarrow> False
      | Inr content \<Rightarrow> 100 \<le> length (strip (clean_html_content e content)))"

definition item_text :: "env \<Rightarrow> item \<Rightarrow> ustr" where
  "item_text e it =
     (case decode e (get_content it) of
        Inl err \<Rightarrow> []
      | Inr content \<Rightarrow> clean_html_content e content)"

definition item_title :: "env \<Rightarrow> item \<Rightarrow> ustr option" where
  "item_title e it =
     (case decode e (get_content it) of
        Inl err \<Rightarrow> None
      | Inr content \<Rightarrow> chapter_title e content)"

definition kept_chapter :: "env \<Rightarrow> item \<Rightarrow> bool" where
  "kept_chapter e it \<longleftrightarrow>
     kept e it \<and>
     (case decode e (get_content it) of
        Inl err \<Rightarrow> False
      | Inr content \<Rightarrow> is_chapter e content)"

text \<open>A decimal digit, and the number that a string of decimal digits denotes.\<close>

definition is_digit :: "nat \<Rightarrow> bool" where
  "is_digit c \<longleftrightarrow> 48 \<le> c \<and> c \<le> 57"

definition decimal_value :: "ustr \<Rightarrow> nat" where
  "decimal_value s = foldl (\<lambda>a d. 10 * a + (d - 48)) 0 s"

text \<open>A chapter header among the fragments of \<open>full_text\<close>.\<close>

definition is_marker :: "ustr \<Rightarrow> bool" where
  "is_marker fragment \<longleftrightarrow> prefix ([10, 10] @ u ''# Chapter '') fragment"

text \<open>The headers of the kept chapters of a list of items, numbered from \<open>k\<close>.\<close>

definition numbered_markers :: "env \<Rightarrow> nat \<Rightarrow> item list \<Rightarrow> ustr list" where
  "numbered_markers e k its =
     map (\<lambda>(j, it). chapter_marker j (item_title e it))
       (zip [k ..< k + length (filter (kept_chapter e) its)] (filter (kept_chapter e) its))"

text \<open>The complete text of a run whose extraction succeeds.\<close>

definition assembled_text :: "env \<Rightarrow> world \<Rightarrow> ustr \<Rightarrow> ustr option" where
  "assembled_text e w epub_path =
     (case read_epub e w epub_path of
        Inl err \<Rightarrow> None
      | Inr bk \<Rightarrow>
          (case get_metadata bk (u ''DC'') (u ''title'') of
             [] \<Rightarrow> None
           | entry # _ \<Rightarrow>
               (case process_items e (get_items bk) (1, [title_line (format_value (fst entry))]) of
                  Inl err \<Rightarrow> None
                | Inr (chapter_number, full_text) \<Rightarrow> Some (join [10] full_text))))"

section \<open>A small book for the examples\<close>

definition ascii_lower :: "ustr \<Rightarrow> ustr" where
  "ascii_lower s = map (\<lambda>c. if 65 \<le> c \<and> c \<le> 90 then c + 32 else c) s"

definition body_a :: ustr where
  "body_a = u ''aaaaaaaaaaaaaaaaaaaaaaaaaaaaaaaaaaaaaaaaaaaaaaaaaa'' @
            u ''aaaaaaaaaaaaaaaaaaaaaaaaaaaaaaaaaaaaaaaaaaaaaaaaaa''"

definition body_b :: ustr where
  "body_b = u ''bbbbbbbbbbbbbbbbbbbbbbbbbbbbbbbbbbbbbbbbbbbbbbbbbb'' @
            u ''bbbbbbbbbbbbbbbbbbbbbbbbbbbbbbbbbbbbbbbbbbbbbbbbbb''"

definition doc_intro :: ustr where
  "doc_intro = u ''<h1>Intro</h1><p>'' @ body_a @ u ''</p>''"

definition doc_one :: ustr where
  "doc_one = u ''<h2>Chapter One</h2><p>'' @ body_b @ u ''</p>''"

definition doc_nav :: ustr where
  "doc_nav = u ''<p>Chapter list</p>''"

definition doc_script :: ustr where
  "doc_script = u ''<script>var chapter;</script><p>hello  world</p>''"

definition doc_noscript :: ustr where
  "doc_noscript = u ''<script></script><p>hello  world</p>''"

definition doc_epilogue :: ustr where
  "doc_epilogue = u ''<p>Epilogue '' @ body_a @ u ''</p>''"

definition doc_script_heading :: ustr where
  "doc_script_heading =
     u ''<h1><script>var chapter;</script>Title</h1><p>'' @ body_a @ u ''</p>''"

text \<open>
  The trees of \<open>html.parser\<close> for these documents, with the string of a \<open>script\<close> element
  as an ordinary string, as the releases of BeautifulSoup without a separate class for
  script strings build them.
\<close>

definition demo_parser :: "ustr \<Rightarrow> node list" where
  "demo_parser markup =
     (if markup = doc_intro
      then [Tag (u ''h1'') [] [Text (u ''Intro'')], Tag (u ''p'') [] [Text body_a]]
      else if markup = doc_one
      then [Tag (u ''h2'') [] [Text (u ''Chapter One'')], Tag (u ''p'') [] [Text body_b]]
      else if markup = doc_nav
      then [Tag (u ''p'') [] [Text (u ''Chapter list'')]]
      else if markup = doc_script
      then [Tag (u ''script'') [] [Text (u ''var chapter;'')],
            Tag (u ''p'') [] [Text (u ''hello  world'')]]
      else if markup = doc_noscript
      then [Tag (u ''script'') [] [], Tag (u ''p'') [] [Text (u ''hello  world'')]]
      else if markup = doc_epilogue
      then [Tag (u ''p'') [] [Text (u ''Epilogue '' @ body_a)]]
      else if markup = doc_script_heading
      then [Tag (u ''h1'') []
              [Tag (u ''script'') [] [Text (u ''var chapter;'')], Text (u ''Title'')],
            Tag (u ''p'') [] [Text body_a]]
      else [Text markup])"

definition demo_items :: "item list" where
  "demo_items =
     [\<lparr>get_type = ITEM_DOCUMENT, get_content = doc_intro\<rparr>,
      \<lparr>get_type = ITEM_IMAGE, get_content = [137, 80, 78, 71]\<rparr>,
      \<lparr>get_type = ITEM_DOCUMENT, get_content = doc_nav\<rparr>,
      \<lparr>get_type = ITEM_DOCUMENT, get_content = doc_one\<rparr>]"

definition series_items :: "item list" where
  "series_items =
     [\<lparr>get_type = ITEM_DOCUMENT, get_content = doc_intro\<rparr>,
      \<lparr>get_type = ITEM_IMAGE, get_content = [137, 80, 78, 71]\<rparr>,
      \<lparr>get_type = ITEM_DOCUMENT, get_content = doc_nav\<rparr>,
      \<lparr>get_type = ITEM_DOCUMENT, get_content = doc_one\<rparr>,
      \<lparr>get_type = ITEM_DOCUMENT, get_content = doc_intro\<rparr>,
      \<lparr>get_type = ITEM_DOCUMENT, get_content = doc_epilogue\<rparr>]"

definition series_full_text :: "ustr list" where
  "series_full_text =
     [u ''# Test Book'' @ [10, 10],
      u ''Intro'' @ body_a,
      [10, 10] @ u ''# Chapter 1: Chapter One'' @ [10, 10],
      u ''Chapter One'' @ body_b,
      u ''Intro'' @ body_a,
      [10, 10] @ u ''# Chapter 2'' @ [10, 10],
      u ''Epilogue '' @ body_a]"

definition demo_book :: book where
  "demo_book =
     \<lparr>get_metadata =
        (\<lambda>namespace name.
           if namespace = u ''DC'' \<and> name = u ''title'' then [(Some (u ''Test Book''), [])]
           else []),
      get_items = demo_items\<rparr>"

definition untitled_book :: book where
  "untitled_book = \<lparr>get_metadata = (\<lambda>namespace name. []), get_items = demo_items\<rparr>"

definition empty_book :: book where
  "empty_book =
     \<lparr>get_metadata =
        (\<lambda>namespace name.
           if namespace = u ''DC'' \<and> name = u ''title'' then [(Some (u ''Demo''), [])]
           else []),
      get_items = []\<rparr>"

definition cafe_book :: book where
  "cafe_book =
     \<lparr>get_metadata =
        (\<lambda>namespace name.
           if namespace = u ''DC'' \<and> name = u ''title'' then [(Some [67, 97, 102, 233], [])]
           else []),
      get_items = []\<rparr>"

definition script_book :: book where
  "script_book =
     \<lparr>get_metadata =
        (\<lambda>namespace name.
           if namespace = u ''DC'' \<and> name = u ''title'' then [(Some (u ''Test Book''), [])]
           else []),
      get_items = [\<lparr>get_type = ITEM_DOCUMENT, get_content = doc_script_heading\<rparr>]\<rparr>"


definition demo_world :: world where
  "demo_world =
     \<lparr>dirs = {u ''books''},
      files = [u ''books/test.epub'' \<mapsto> [80, 75, 3, 4],
               u ''books/untitled.epub'' \<mapsto> [80, 75, 3, 4],
               u ''books/empty.epub'' \<mapsto> [80, 75, 3, 4],
               u ''books/cafe.epub'' \<mapsto> [80, 75, 3, 4],
               u ''books/script.epub'' \<mapsto> [80, 75, 3, 4]]\<rparr>"

definition demo_env :: env where
  "demo_env =
     \<lparr>lower = ascii_lower,
      BeautifulSoup = demo_parser,
      decode = Inr,
      read_epub =
        (\<lambda>w path.
           if path = u ''books/test.epub'' then Inr demo_book
           else if path = u ''books/untitled.epub'' then Inr untitled_book
           else if path = u ''books/empty.epub'' then Inr empty_book
           else if path = u ''books/cafe.epub'' then Inr cafe_book
           else if path = u ''books/script.epub'' then Inr script_book
           else Inl (EpubError (u ''Bad Zip file''))),
      makedirs_targets = (\<lambda>path. [u ''out'']),
      encode_error_text = (\<lambda>s. u ''surrogates not allowed''),
      fault = NoFault\<rparr>"

text \<open>A full disk, and a limit of six bytes on the size of a file.\<close>

definition full_disk_env :: env where
  "full_disk_env = demo_env\<lparr>fault := WriteFails 0 (u ''[Errno 28] No space left on device'')\<rparr>"

definition limit_env :: env where
  "limit_env = demo_env\<lparr>fault := WriteFails 6 (u ''[Errno 27] File too large'')\<rparr>"

section \<open>The keyword search\<close>

lemma match_alts_None: "match_alts alts s = None \<longleftrightarrow> (\<forall>a\<in>set alts. \<not> prefix a s)"
  by (induction alts) auto

lemma search_from_None:
  "search_from alts i s = None \<longleftrightarrow> (\<forall>a\<in>set alts. \<not> sublist a s)"
proof (induction s arbitrary: i)
  case Nil
  have "search_from alts i [] = None \<longleftrightarrow> match_alts alts [] = None"
    by (simp split: option.splits)
  then show ?case by (simp add: match_alts_None)
next
  case (Cons c cs)
  show ?case
  proof (cases "match_alts alts (c # cs)")
    case None
    then have step: "search_from alts i (c # cs) = search_from alts (Suc i) cs"
      by simp
    from None have "\<forall>a\<in>set alts. \<not> prefix a (c # cs)"
      by (simp only: match_alts_None)
    then show ?thesis
      unfolding step Cons[of "Suc i"] by (auto simp: sublist_Cons_right)
  next
    case (Some a)
    then have found: "search_from alts i (c # cs) \<noteq> None"
      by simp
    from Some have "\<not> (\<forall>a\<in>set alts. \<not> prefix a (c # cs))"
      using match_alts_None[of alts "c # cs"] by simp
    then have "\<not> (\<forall>a\<in>set alts. \<not> sublist a (c # cs))"
      by (auto simp: sublist_Cons_right)
    with found show ?thesis by blast
  qed
qed

text \<open>
  Claim C3. An item is classified as a chapter exactly when its lowercased raw markup
  contains one of the literals \<open>chapter\<close>, \<open>prologue\<close>, \<open>epilogue\<close>. The flag is a
  function of the raw markup alone: the parse tree takes no part in it, so a keyword in an
  attribute, a comment, a script or a style element counts.
\<close>

theorem is_chapter_iff_keyword:
  "is_chapter e content \<longleftrightarrow>
     sublist (u ''chapter'') (lower e content) \<or>
     sublist (u ''prologue'') (lower e content) \<or>
     sublist (u ''epilogue'') (lower e content)"
  by (auto simp: is_chapter_def re_search_def search_from_None chapter_keywords_def)



section \<open>Whitespace normalization\<close>

lemma sub_ws_hd: "sub_ws s = x # r \<Longrightarrow> s \<noteq> [] \<and> (isspace (hd s) \<longrightarrow> x = 32) \<and> (\<not> isspace (hd s) \<longrightarrow> x = hd s)"
  by (cases s) (auto split: if_splits)

lemma isspace_32: "isspace 32" by (simp add: isspace_def)
lemma isspace_10: "isspace 10" by (simp add: isspace_def)

lemma tidy_sub_ws: "tidy (sub_ws s)"
proof (induction s rule: sub_ws.induct)
  case 1 show ?case by simp
next
  case (2 c cs)
  show ?case
  proof (cases "isspace c")
    case True
    have "sub_ws (dropWhile isspace cs) = [] \<or> \<not> isspace (hd (sub_ws (dropWhile isspace cs)))"
    proof (cases "sub_ws (dropWhile isspace cs)")
      case Nil then show ?thesis by simp
    next
      case (Cons x r)
      from sub_ws_hd[OF Cons] have ne: "dropWhile isspace cs \<noteq> []"
        and h: "\<not> isspace (hd (dropWhile isspace cs)) \<longrightarrow> x = hd (dropWhile isspace cs)" by auto
      from hd_dropWhile[OF ne] h Cons show ?thesis by simp
    qed
    with True 2 show ?thesis by simp
  next
    case False
    with 2 show ?thesis by simp
  qed
qed

lemma tidy_append: "tidy (xs @ ys) \<Longrightarrow> tidy xs \<and> tidy ys"
proof (induction xs)
  case Nil then show ?case by simp
next
  case (Cons x xs)
  then show ?case by (cases xs) auto
qed

lemma strip_decomp: "\<exists>a b. s = a @ strip s @ b"
proof -
  let ?y = "dropWhile isspace s"
  have 1: "s = takeWhile isspace s @ ?y" by simp
  have "rev (takeWhile isspace (rev ?y) @ dropWhile isspace (rev ?y)) = rev (rev ?y)"
    by (simp only: takeWhile_dropWhile_id)
  then have "rev (dropWhile isspace (rev ?y)) @ rev (takeWhile isspace (rev ?y)) = ?y"
    by (simp only: rev_append rev_rev_ident)
  then have 2: "?y = strip s @ rev (takeWhile isspace (rev ?y))"
    by (simp only: strip_def)
  show ?thesis using 1 2 by metis
qed

lemma tidy_strip: "tidy s \<Longrightarrow> tidy (strip s)"
  using strip_decomp[of s] tidy_append by metis

lemma sub_ws_tidy: "tidy s \<Longrightarrow> sub_ws s = s"
proof (induction s)
  case Nil then show ?case by simp
next
  case (Cons c cs)
  then show ?case by (cases cs) auto
qed

lemma strip_hd: "strip s = [] \<or> \<not> isspace (hd (strip s))"
proof (cases "strip s = []")
  case True then show ?thesis by simp
next
  case False
  let ?y = "dropWhile isspace s"
  let ?z = "dropWhile isspace (rev ?y)"
  from False have zne: "?z \<noteq> []" by (simp add: strip_def)
  have yne: "?y \<noteq> []"
  proof
    assume a: "?y = []"
    have "?z = []" unfolding a by simp
    with zne show False by simp
  qed
  have "suffix ?z (rev ?y)" by (rule suffix_dropWhile)
  then obtain p where "rev ?y = p @ ?z" by (auto simp: suffix_def)
  with zne have "last ?z = last (rev ?y)" by (metis last_appendR)
  also have "\<dots> = hd ?y" using yne by (simp add: last_rev)
  finally have "last ?z = hd ?y" .
  moreover have "hd (strip s) = last ?z" using zne by (simp add: strip_def hd_rev)
  ultimately show ?thesis using hd_dropWhile[OF yne] by simp
qed

lemma strip_idem: "strip (strip s) = strip s"
proof -
  have 1: "dropWhile isspace (strip s) = strip s"
    using strip_hd[of s] by (simp add: dropWhile_eq_self_iff)
  show ?thesis
    unfolding strip_def[of "strip s"] 1 by (simp add: strip_def)
qed

lemma tidy_no_nl: "tidy s \<Longrightarrow> 10 \<notin> set s"
  by (induction s) (auto simp: isspace_10)

lemma sub_para_no_nl: "10 \<notin> set s \<Longrightarrow> sub_para s = s"
  by (induction s rule: sub_para.induct) auto

lemma normalize_ws_eq: "normalize_ws s = strip (sub_ws s)"
  by (simp add: normalize_ws_def sub_para_no_nl tidy_no_nl tidy_strip tidy_sub_ws)

lemma tidy_normalize_ws: "tidy (normalize_ws s)"
  by (simp add: normalize_ws_eq tidy_strip tidy_sub_ws)

lemma tidy_collapsed: "tidy s \<Longrightarrow> collapsed s"
proof (induction s rule: collapsed.induct)
  case 1
  show ?case by simp
next
  case (2 c cs)
  show ?case
  proof (cases "isspace c")
    case True
    with "2.prems" have nxt: "cs = [] \<or> \<not> isspace (hd cs)" and t: "tidy cs"
      by auto
    from nxt have tw: "takeWhile isspace cs = []" and dw: "dropWhile isspace cs = cs"
      by (cases cs; simp)+
    from "2.IH"(1)[OF True] t dw have "collapsed (dropWhile isspace cs)"
      by simp
    with True tw show ?thesis by simp
  next
    case False
    with 2 show ?thesis by simp
  qed
qed

lemma clean_html_content_eq:
  "clean_html_content e content =
     normalize_ws (soup_get_text (decompose_all [u ''script'', u ''style''] (BeautifulSoup e content)))"
  by (simp add: clean_html_content_def Let_def)

text \<open>
  Claim C6. The text of every extracted section satisfies the collapsed-whitespace
  invariant, and the paragraph-break pass changes nothing on a string produced by the
  first pass, before or after trimming.
\<close>

theorem clean_text_collapsed:
  "collapsed (clean_html_content e content) \<and>
   sub_para (sub_ws s) = sub_ws s \<and>
   sub_para (strip (sub_ws s)) = strip (sub_ws s)"
  by (simp add: clean_html_content_eq tidy_collapsed tidy_normalize_ws
      sub_para_no_nl tidy_no_nl tidy_strip tidy_sub_ws)

text \<open>
  Claim C7. The whitespace normalization (collapse the runs, trim, collapse the paragraph
  breaks) is idempotent.
\<close>

theorem normalize_ws_idempotent: "normalize_ws (normalize_ws s) = normalize_ws s"
  by (simp add: normalize_ws_eq sub_ws_tidy tidy_strip tidy_sub_ws strip_idem)

section \<open>The example book, evaluated\<close>

lemmas demo_defs = demo_env_def demo_parser_def doc_intro_def doc_one_def doc_nav_def
  doc_script_def doc_noscript_def doc_epilogue_def doc_script_heading_def
  body_a_def body_b_def u_def

lemma demo_clean_script: "clean_html_content demo_env doc_script = u ''hello world''"
  by (simp add: clean_html_content_eq normalize_ws_eq decompose_all_def soup_get_text_def
      strip_def isspace_def demo_defs)

lemma demo_clean_noscript: "clean_html_content demo_env doc_noscript = u ''hello world''"
  by (simp add: clean_html_content_eq normalize_ws_eq decompose_all_def soup_get_text_def
      strip_def isspace_def demo_defs)

lemma demo_is_chapter_script: "is_chapter demo_env doc_script"
  by (simp add: is_chapter_def re_search_def chapter_keywords_def ascii_lower_def demo_defs)

lemma demo_clean_one: "clean_html_content demo_env doc_one = u ''Chapter One'' @ body_b"
  by (simp add: clean_html_content_eq normalize_ws_eq decompose_all_def soup_get_text_def
      strip_def isspace_def demo_defs)

lemma demo_is_chapter_one: "is_chapter demo_env doc_one"
  by (simp add: is_chapter_def re_search_def chapter_keywords_def ascii_lower_def demo_defs)

lemma demo_not_chapter_intro: "\<not> is_chapter demo_env doc_intro"
  by (simp add: is_chapter_def re_search_def chapter_keywords_def ascii_lower_def demo_defs)

section \<open>Examples, script and style elements, titles\<close>

text \<open>The statement at a document of the example book.\<close>

theorem is_chapter_iff_keyword_witness:
  "sublist (u ''chapter'') (lower demo_env doc_script) \<or>
   sublist (u ''prologue'') (lower demo_env doc_script) \<or>
   sublist (u ''epilogue'') (lower demo_env doc_script)"
  using is_chapter_iff_keyword[of demo_env doc_script] demo_is_chapter_script by blast

text \<open>The statement at a document of the example book.\<close>

theorem clean_text_collapsed_witness:
  "collapsed (clean_html_content demo_env doc_script) \<and>
   clean_html_content demo_env doc_script = u ''hello world'' \<and>
   sub_para (sub_ws [97, 10, 9, 10, 98]) = [97, 32, 98]"
  using clean_text_collapsed[of demo_env doc_script "[97, 10, 9, 10, 98]"] demo_clean_script
  by (simp add: isspace_def)

text \<open>The statement at a document of the example book.\<close>

theorem normalize_ws_idempotent_witness:
  "normalize_ws (normalize_ws [32, 97, 10, 10, 98, 32]) = [97, 32, 98]"
  using normalize_ws_idempotent[of "[32, 97, 10, 10, 98, 32]"]
  by (simp add: normalize_ws_eq strip_def isspace_def)


lemma get_text_decompose:
  "concat (map get_text (decompose [u ''script'', u ''style''] n)) = visible_text n"
proof (induction n)
  case (Tag name attrs contents)
  have "concat (map get_text (concat (map (decompose [u ''script'', u ''style'']) contents))) =
        concat (map visible_text contents)"
    using Tag by (induction contents) auto
  then show ?case by auto
qed simp_all

lemma soup_text_visible:
  "soup_get_text (decompose_all [u ''script'', u ''style''] soup) = concat (map visible_text soup)"
  by (induction soup) (simp_all add: soup_get_text_def decompose_all_def get_text_decompose)

lemma visible_without_script: "visible_text (without_script_content n) = visible_text n"
proof (induction n)
  case (Tag name attrs contents)
  have eq: "concat (map (\<lambda>x. visible_text (without_script_content x)) contents) =
        concat (map visible_text contents)"
    using Tag by (induction contents) auto
  show ?case by (simp add: comp_def eq)
qed simp_all

lemma visible_soup_without_script:
  "concat (map visible_text (map without_script_content soup)) = concat (map visible_text soup)"
  by (induction soup) (simp_all add: visible_without_script)

text \<open>
  The body of a section. The extracted text is the normalized visible text, to which the
  contents of \<open>script\<close> and \<open>style\<close> elements contribute nothing: two documents whose trees
  agree once those contents are emptied have the same extracted text, whatever the scripts
  hold.
\<close>

theorem script_content_removed:
  "clean_html_content e content =
     normalize_ws (concat (map visible_text (BeautifulSoup e content))) \<and>
   (map without_script_content (BeautifulSoup e content) =
      map without_script_content (BeautifulSoup e content') \<longrightarrow>
    clean_html_content e content = clean_html_content e content')"
proof -
  have eq: "\<And>c. clean_html_content e c =
      normalize_ws (concat (map visible_text (BeautifulSoup e c)))"
    by (simp add: clean_html_content_eq soup_text_visible)
  show ?thesis
    unfolding eq using visible_soup_without_script by metis
qed

lemma demo_scripts_agree:
  "map without_script_content (BeautifulSoup demo_env doc_script) =
   map without_script_content (BeautifulSoup demo_env doc_noscript)"
  by (simp add: demo_defs)

lemma demo_no_chapter_in_text: "\<not> sublist (u ''chapter'') (u ''hello world'')"
  by (simp add: u_def sublist_Cons_right)

text \<open>The statement at a document of the example book.\<close>

theorem script_content_removed_witness:
  "map without_script_content (BeautifulSoup demo_env doc_script) =
     map without_script_content (BeautifulSoup demo_env doc_noscript) \<and>
   clean_html_content demo_env doc_script = clean_html_content demo_env doc_noscript \<and>
   clean_html_content demo_env doc_script = u ''hello world'' \<and>
   is_chapter demo_env doc_script \<and>
   \<not> sublist (u ''chapter'') (clean_html_content demo_env doc_script)"
proof -
  have same: "clean_html_content demo_env doc_script = clean_html_content demo_env doc_noscript"
    using script_content_removed[of demo_env doc_script doc_noscript] demo_scripts_agree
    by blast
  have absent: "\<not> sublist (u ''chapter'') (clean_html_content demo_env doc_script)"
    unfolding demo_clean_script by (rule demo_no_chapter_in_text)
  show ?thesis
    using same absent demo_scripts_agree demo_clean_script demo_is_chapter_script by blast
qed


lemma first_title_find:
  "first_title headers = map_option (\<lambda>h. strip (get_text h)) (find usable_header headers)"
  by (induction headers) (simp_all add: usable_header_def Let_def)

lemma first_title_Some: "first_title headers = Some t \<Longrightarrow> t \<noteq> [] \<and> length t < 100"
  by (induction headers) (auto simp: Let_def split: if_splits)

lemma process_item_kept:
  "get_type it = ITEM_DOCUMENT \<Longrightarrow> decode e (get_content it) = Inr content \<Longrightarrow>
   100 \<le> length (strip (clean_html_content e content)) \<Longrightarrow>
   process_item e it (n, ft) =
     (if is_chapter e content
      then Inr (n + 1, ft @ [chapter_marker n (chapter_title e content),
                             clean_html_content e content])
      else Inr (n, ft @ [clean_html_content e content]))"
  by (simp add: process_item_def Let_def)

text \<open>
  Claim C4. The title of a kept item is the trimmed text of the first \<open>h1\<close>, \<open>h2\<close> or
  \<open>h3\<close> element, in document order, whose trimmed text is non-empty and shorter than 100
  characters, and \<open>None\<close> when there is no such heading. A kept item that is not a chapter
  adds its text only; a chapter adds the header with its number, followed by the title
  when there is one.
\<close>

theorem chapter_title_first_heading:
  "chapter_title e content =
     map_option (\<lambda>h. strip (get_text h))
       (find usable_header (find_all [u ''h1'', u ''h2'', u ''h3''] (BeautifulSoup e content))) \<and>
   (chapter_title e content = None \<longleftrightarrow>
      \<not> (\<exists>h \<in> set (find_all [u ''h1'', u ''h2'', u ''h3''] (BeautifulSoup e content)).
            usable_header h)) \<and>
   (get_type it = ITEM_DOCUMENT \<and> decode e (get_content it) = Inr content \<and>
    100 \<le> length (strip (clean_html_content e content)) \<longrightarrow>
      process_item e it (n, ft) =
        (if is_chapter e content
         then Inr (n + 1, ft @ [chapter_marker n (chapter_title e content),
                                clean_html_content e content])
         else Inr (n, ft @ [clean_html_content e content]))) \<and>
   (chapter_title e content = None \<longrightarrow>
      chapter_marker n (chapter_title e content) =
        [10, 10] @ u ''# Chapter '' @ str_nat n @ [10, 10]) \<and>
   (chapter_title e content = Some t \<longrightarrow>
      chapter_marker n (chapter_title e content) =
        [10, 10] @ u ''# Chapter '' @ str_nat n @ u '': '' @ t @ [10, 10])"
proof -
  have a: "chapter_title e content =
     map_option (\<lambda>h. strip (get_text h))
       (find usable_header (find_all [u ''h1'', u ''h2'', u ''h3''] (BeautifulSoup e content)))"
    by (simp add: chapter_title_def first_title_find)
  have b: "chapter_title e content = None \<longleftrightarrow>
      \<not> (\<exists>h \<in> set (find_all [u ''h1'', u ''h2'', u ''h3''] (BeautifulSoup e content)).
            usable_header h)"
    unfolding a by (auto simp: find_None_iff)
  have c: "chapter_title e content = Some t \<longrightarrow> t \<noteq> []"
    using first_title_Some by (auto simp: chapter_title_def)
  have d: "chapter_title e content = None \<longrightarrow>
      chapter_marker n (chapter_title e content) =
        [10, 10] @ u ''# Chapter '' @ str_nat n @ [10, 10]"
    by (simp add: plain_marker_def)
  have f: "chapter_title e content = Some t \<longrightarrow>
      chapter_marker n (chapter_title e content) =
        [10, 10] @ u ''# Chapter '' @ str_nat n @ u '': '' @ t @ [10, 10]"
    using c by (simp add: titled_marker_def)
  show ?thesis
    using a b d f process_item_kept[of it e content n ft] by blast
qed

lemma demo_clean_intro: "clean_html_content demo_env doc_intro = u ''Intro'' @ body_a"
  by (simp add: clean_html_content_eq normalize_ws_eq decompose_all_def soup_get_text_def
      strip_def isspace_def demo_defs)

lemma demo_clean_nav: "clean_html_content demo_env doc_nav = u ''Chapter list''"
  by (simp add: clean_html_content_eq normalize_ws_eq decompose_all_def soup_get_text_def
      strip_def isspace_def demo_defs)

lemma demo_title_intro: "chapter_title demo_env doc_intro = Some (u ''Intro'')"
  by (simp add: chapter_title_def find_all_def strip_def isspace_def demo_defs)

lemma demo_title_one: "chapter_title demo_env doc_one = Some (u ''Chapter One'')"
  by (simp add: chapter_title_def find_all_def strip_def isspace_def demo_defs)

lemma strip_body_a: "strip (u ''Intro'' @ body_a) = u ''Intro'' @ body_a"
  by (simp add: strip_def isspace_def body_a_def u_def)

lemma strip_body_b: "strip (u ''Chapter One'' @ body_b) = u ''Chapter One'' @ body_b"
  by (simp add: strip_def isspace_def body_b_def u_def)

lemma length_body_a: "length body_a = 100"
  by (simp add: body_a_def u_def)

lemma length_body_b: "length body_b = 100"
  by (simp add: body_b_def u_def)

lemma demo_long_intro: "100 \<le> length (strip (clean_html_content demo_env doc_intro))"
  unfolding demo_clean_intro strip_body_a by (simp add: length_body_a)

lemma demo_long_one: "100 \<le> length (strip (clean_html_content demo_env doc_one))"
  unfolding demo_clean_one strip_body_b by (simp add: length_body_b)

lemma demo_decode: "decode demo_env c = Inr c"
  by (simp add: demo_env_def)

text \<open>The statement at the example book.\<close>

theorem chapter_title_first_heading_witness:
  "chapter_title demo_env doc_intro = Some (u ''Intro'') \<and>
   \<not> is_chapter demo_env doc_intro \<and>
   process_item demo_env \<lparr>get_type = ITEM_DOCUMENT, get_content = doc_intro\<rparr>
       (1, [title_line (u ''Test Book'')]) =
     Inr (1, [title_line (u ''Test Book''), u ''Intro'' @ body_a]) \<and>
   chapter_title demo_env doc_one = Some (u ''Chapter One'') \<and>
   is_chapter demo_env doc_one \<and>
   process_item demo_env \<lparr>get_type = ITEM_DOCUMENT, get_content = doc_one\<rparr>
       (1, [title_line (u ''Test Book'')]) =
     Inr (2, [title_line (u ''Test Book''),
              [10, 10] @ u ''# Chapter '' @ str_nat 1 @ u '': '' @ u ''Chapter One'' @ [10, 10],
              u ''Chapter One'' @ body_b])"
proof -
  let ?intro = "\<lparr>get_type = ITEM_DOCUMENT, get_content = doc_intro\<rparr>"
  let ?one = "\<lparr>get_type = ITEM_DOCUMENT, get_content = doc_one\<rparr>"
  let ?ft = "[title_line (u ''Test Book'')]"
  have h1: "get_type ?intro = ITEM_DOCUMENT \<and> decode demo_env (get_content ?intro) = Inr doc_intro \<and>
      100 \<le> length (strip (clean_html_content demo_env doc_intro))"
    by (simp add: demo_decode demo_long_intro)
  have h2: "get_type ?one = ITEM_DOCUMENT \<and> decode demo_env (get_content ?one) = Inr doc_one \<and>
      100 \<le> length (strip (clean_html_content demo_env doc_one))"
    by (simp add: demo_decode demo_long_one)
  from chapter_title_first_heading[of demo_env doc_intro ?intro 1 ?ft "u ''Intro''"] h1
  have "process_item demo_env ?intro (1, ?ft) =
      (if is_chapter demo_env doc_intro
       then Inr (1 + 1, ?ft @ [chapter_marker 1 (chapter_title demo_env doc_intro),
                               clean_html_content demo_env doc_intro])
       else Inr (1, ?ft @ [clean_html_content demo_env doc_intro]))"
    by blast
  then have 1: "process_item demo_env ?intro (1, ?ft) =
      Inr (1, [title_line (u ''Test Book''), u ''Intro'' @ body_a])"
    by (simp add: demo_not_chapter_intro demo_clean_intro)
  from chapter_title_first_heading[of demo_env doc_one ?one 1 ?ft "u ''Chapter One''"] h2
    demo_title_one
  have "process_item demo_env ?one (1, ?ft) =
      (if is_chapter demo_env doc_one
       then Inr (1 + 1, ?ft @ [chapter_marker 1 (chapter_title demo_env doc_one),
                               clean_html_content demo_env doc_one])
       else Inr (1, ?ft @ [clean_html_content demo_env doc_one]))"
    and "chapter_marker 1 (chapter_title demo_env doc_one) =
      [10, 10] @ u ''# Chapter '' @ str_nat 1 @ u '': '' @ u ''Chapter One'' @ [10, 10]"
    by blast+
  then have 2: "process_item demo_env ?one (1, ?ft) =
      Inr (2, [title_line (u ''Test Book''),
               [10, 10] @ u ''# Chapter '' @ str_nat 1 @ u '': '' @ u ''Chapter One'' @ [10, 10],
               u ''Chapter One'' @ body_b])"
    by (simp add: demo_is_chapter_one demo_clean_one)
  show ?thesis
    using 1 2 demo_title_intro demo_title_one demo_not_chapter_intro demo_is_chapter_one
    by blast
qed


section \<open>The loop over the items\<close>

lemma length_strip_le: "length (strip s) \<le> length s"
proof -
  have "length (strip s) = length (dropWhile isspace (rev (dropWhile isspace s)))"
    by (simp add: strip_def)
  also have "\<dots> \<le> length (rev (dropWhile isspace s))"
    by (rule length_dropWhile_le)
  also have "\<dots> = length (dropWhile isspace s)"
    by simp
  also have "\<dots> \<le> length s"
    by (rule length_dropWhile_le)
  finally show ?thesis .
qed

lemma process_item_cases:
  "process_item e it (k, ft) = Inr (n, ft') \<Longrightarrow>
     (if kept e it
      then (if kept_chapter e it
            then n = Suc k \<and> ft' = ft @ [chapter_marker k (item_title e it), item_text e it]
            else n = k \<and> ft' = ft @ [item_text e it])
      else n = k \<and> ft' = ft)"
  by (auto simp: process_item_def kept_def kept_chapter_def item_text_def item_title_def
      Let_def split: if_splits sum.splits)

lemma is_marker_chapter_marker: "is_marker (chapter_marker k t)"
  by (cases t) (simp_all add: is_marker_def titled_marker_def plain_marker_def)

lemma not_marker_title_line: "\<not> is_marker (title_line t)"
  by (simp add: is_marker_def title_line_def u_def)

lemma kept_text_long: "kept e it \<Longrightarrow> 100 \<le> length (strip (item_text e it))"
  by (auto simp: kept_def item_text_def split: sum.splits)

lemma strip_Nil: "strip [] = []"
  by (simp add: strip_def)

lemma item_text_stripped: "strip (item_text e it) = item_text e it"
  by (simp add: item_text_def clean_html_content_eq normalize_ws_eq strip_idem strip_Nil
      split: sum.splits)

lemma not_marker_text: "kept e it \<Longrightarrow> \<not> is_marker (item_text e it)"
proof
  assume k: "kept e it" and m: "is_marker (item_text e it)"
  let ?t = "item_text e it"
  from kept_text_long[OF k] have ne: "strip ?t \<noteq> []" by auto
  with strip_hd[of ?t] have "\<not> isspace (hd (strip ?t))" by simp
  then have h: "\<not> isspace (hd ?t)" by (simp add: item_text_stripped)
  from m obtain r where "?t = 10 # r"
    by (auto simp: is_marker_def prefix_def)
  with h show False by (simp add: isspace_10)
qed

lemma numbered_markers_Nil: "numbered_markers e k [] = []"
  by (simp add: numbered_markers_def)

lemma numbered_markers_skip:
  "\<not> kept_chapter e it \<Longrightarrow> numbered_markers e k (it # its) = numbered_markers e k its"
  by (simp add: numbered_markers_def)

lemma numbered_markers_chapter:
  "kept_chapter e it \<Longrightarrow>
   numbered_markers e k (it # its) =
     chapter_marker k (item_title e it) # numbered_markers e (Suc k) its"
  by (simp add: numbered_markers_def upt_conv_Cons del: upt_Suc)

lemma process_items_run:
  "process_items e its (k, ft) = Inr (n, ft') \<Longrightarrow>
   \<exists>new. ft' = ft @ new \<and>
     filter is_marker new = numbered_markers e k its \<and>
     n = k + length (filter (kept_chapter e) its) \<and>
     filter (\<lambda>f. \<not> is_marker f) new = map (item_text e) (filter (kept e) its)"
proof (induction its arbitrary: k ft)
  case Nil
  then show ?case by (simp add: numbered_markers_Nil)
next
  case (Cons it its)
  from Cons.prems obtain k1 ft1 where
    step: "process_item e it (k, ft) = Inr (k1, ft1)" and
    rest: "process_items e its (k1, ft1) = Inr (n, ft')"
    by (auto split: sum.splits)
  from Cons.IH[OF rest] obtain new where new:
    "ft' = ft1 @ new" "filter is_marker new = numbered_markers e k1 its"
    "n = k1 + length (filter (kept_chapter e) its)"
    "filter (\<lambda>f. \<not> is_marker f) new = map (item_text e) (filter (kept e) its)"
    by blast
  have kc: "kept_chapter e it \<Longrightarrow> kept e it"
    by (simp add: kept_chapter_def)
  consider (chap) "kept_chapter e it" | (plain) "kept e it" "\<not> kept_chapter e it"
    | (skipped) "\<not> kept e it"
    using kc by blast
  then show ?case
  proof cases
    case chap
    with process_item_cases[OF step] kc have
      s: "k1 = Suc k" "ft1 = ft @ [chapter_marker k (item_title e it), item_text e it]"
      by auto
    have "ft' = ft @ ([chapter_marker k (item_title e it), item_text e it] @ new)"
      using new(1) s by simp
    moreover have "filter is_marker ([chapter_marker k (item_title e it), item_text e it] @ new)
        = numbered_markers e k (it # its)"
      using chap kc new(2) s
      by (simp add: numbered_markers_chapter is_marker_chapter_marker not_marker_text)
    moreover have "n = k + length (filter (kept_chapter e) (it # its))"
      using chap new(3) s by simp
    moreover have "filter (\<lambda>f. \<not> is_marker f)
          ([chapter_marker k (item_title e it), item_text e it] @ new) =
        map (item_text e) (filter (kept e) (it # its))"
      using chap kc new(4)
      by (simp add: is_marker_chapter_marker not_marker_text)
    ultimately show ?thesis by blast
  next
    case plain
    with process_item_cases[OF step] have s: "k1 = k" "ft1 = ft @ [item_text e it]"
      by auto
    have "ft' = ft @ ([item_text e it] @ new)"
      using new(1) s by simp
    moreover have "filter is_marker ([item_text e it] @ new) = numbered_markers e k (it # its)"
      using plain new(2) s by (simp add: numbered_markers_skip not_marker_text)
    moreover have "n = k + length (filter (kept_chapter e) (it # its))"
      using plain new(3) s by simp
    moreover have "filter (\<lambda>f. \<not> is_marker f) ([item_text e it] @ new) =
        map (item_text e) (filter (kept e) (it # its))"
      using plain new(4) by (simp add: not_marker_text)
    ultimately show ?thesis by blast
  next
    case skipped
    with process_item_cases[OF step] have s: "k1 = k" "ft1 = ft"
      by auto
    from skipped kc have nc: "\<not> kept_chapter e it" by blast
    show ?thesis
      using new s skipped nc by (auto simp: numbered_markers_skip)
  qed
qed

lemma process_item_other: "get_type it \<noteq> ITEM_DOCUMENT \<Longrightarrow> process_item e it st = Inr st"
  by (cases st) (simp add: process_item_def)

lemma process_item_short:
  "get_type it = ITEM_DOCUMENT \<Longrightarrow> decode e (get_content it) = Inr content \<Longrightarrow>
   length (strip (clean_html_content e content)) < 100 \<Longrightarrow> process_item e it st = Inr st"
  by (cases st) (simp add: process_item_def Let_def)

lemma str_nat_nonempty: "str_nat n \<noteq> []"
  by (subst str_nat.simps) simp

lemma str_nat_digits: "list_all is_digit (str_nat n)"
proof (induction n rule: str_nat.induct)
  case (1 n)
  show ?case
  proof (cases "n < 10")
    case True
    then show ?thesis
      by (subst str_nat.simps) (simp add: is_digit_def)
  next
    case False
    have "n mod 10 < 10" by simp
    then have "is_digit (48 + n mod 10)"
      unfolding is_digit_def by linarith
    with False 1 show ?thesis
      by (subst str_nat.simps) simp
  qed
qed

lemma decimal_value_snoc: "decimal_value (s @ [d]) = 10 * decimal_value s + (d - 48)"
  by (simp add: decimal_value_def)

lemma decimal_value_str_nat: "decimal_value (str_nat n) = n"
proof (induction n rule: str_nat.induct)
  case (1 n)
  show ?case
  proof (cases "n < 10")
    case True
    then show ?thesis
      by (subst str_nat.simps) (simp add: decimal_value_def)
  next
    case False
    with 1 have "decimal_value (str_nat (n div 10)) = n div 10"
      by simp
    with False show ?thesis
      by (subst str_nat.simps) (simp add: decimal_value_snoc)
  qed
qed

lemma str_nat_leading: "hd (str_nat n) = 48 \<Longrightarrow> n = 0"
proof (induction n rule: str_nat.induct)
  case (1 n)
  show ?case
  proof (cases "n < 10")
    case True
    with "1.prems" show ?thesis
      by (subst (asm) str_nat.simps) simp
  next
    case False
    with "1.prems" have "hd (str_nat (n div 10)) = 48"
      by (subst (asm) str_nat.simps) (simp add: str_nat_nonempty)
    with "1.IH" False have "n div 10 = 0"
      by simp
    with False show ?thesis
      by simp
  qed
qed

lemma item_title_Some: "item_title e it = Some t \<Longrightarrow> t \<noteq> []"
  using first_title_Some
  by (auto simp: item_title_def chapter_title_def split: sum.splits)

lemma chapter_marker_text:
  "chapter_marker j (item_title e it) =
     [10, 10] @ u ''# Chapter '' @ str_nat j @
     (case item_title e it of None \<Rightarrow> [] | Some title \<Rightarrow> u '': '' @ title) @ [10, 10]"
proof (cases "item_title e it")
  case None
  then show ?thesis by (simp add: plain_marker_def)
next
  case (Some t)
  with item_title_Some[OF Some] show ?thesis by (simp add: titled_marker_def)
qed

text \<open>
  Claim C1. In a run that completes, the chapter headers among the fragments are exactly
  the headers of the items that pass the length filter and match the keyword heuristic,
  in item order, whatever other sections lie between them. The header of the \<open>j\<close>-th of
  them is \<open>"\n\n# Chapter "\<close>, the number \<open>j\<close>, the title after a colon when there is one,
  and \<open>"\n\n"\<close>; the numbers run 1, 2, 3, ... without gaps and the counter ends one above
  their count. The number is written in decimal: digits only, no leading zero, and read
  back it is \<open>j\<close>.
\<close>

theorem chapter_headers_numbered:
  "process_items e its (1, [title_line t]) = Inr (n, full_text) \<Longrightarrow>
   filter is_marker full_text =
     map (\<lambda>(j, it). [10, 10] @ u ''# Chapter '' @ str_nat j @
            (case item_title e it of None \<Rightarrow> [] | Some title \<Rightarrow> u '': '' @ title) @
            [10, 10])
       (zip [1 ..< Suc (length (filter (kept_chapter e) its))] (filter (kept_chapter e) its)) \<and>
   length (filter is_marker full_text) = length (filter (kept_chapter e) its) \<and>
   n = Suc (length (filter (kept_chapter e) its)) \<and>
   str_nat j \<noteq> [] \<and> list_all is_digit (str_nat j) \<and> decimal_value (str_nat j) = j \<and>
   (hd (str_nat j) = 48 \<longrightarrow> j = 0)"
proof -
  assume run: "process_items e its (1, [title_line t]) = Inr (n, full_text)"
  from process_items_run[OF run] obtain new where new:
    "full_text = [title_line t] @ new" "filter is_marker new = numbered_markers e 1 its"
    "n = 1 + length (filter (kept_chapter e) its)"
    by blast
  have m: "filter is_marker full_text =
     map (\<lambda>(j, it). chapter_marker j (item_title e it))
       (zip [1 ..< Suc (length (filter (kept_chapter e) its))] (filter (kept_chapter e) its))"
    using new(1,2) by (simp add: not_marker_title_line numbered_markers_def)
  have len: "length (filter is_marker full_text) = length (filter (kept_chapter e) its)"
    unfolding m by (simp del: upt_Suc)
  have shape: "(\<lambda>(j, it). chapter_marker j (item_title e it)) =
      (\<lambda>(j, it). [10, 10] @ u ''# Chapter '' @ str_nat j @
            (case item_title e it of None \<Rightarrow> [] | Some title \<Rightarrow> u '': '' @ title) @
            [10, 10])"
    by (simp only: chapter_marker_text)
  have num: "str_nat j \<noteq> [] \<and> list_all is_digit (str_nat j) \<and> decimal_value (str_nat j) = j \<and>
      (hd (str_nat j) = 48 \<longrightarrow> j = 0)"
    using str_nat_nonempty str_nat_digits decimal_value_str_nat str_nat_leading by blast
  from m shape have "filter is_marker full_text =
     map (\<lambda>(j, it). [10, 10] @ u ''# Chapter '' @ str_nat j @
            (case item_title e it of None \<Rightarrow> [] | Some title \<Rightarrow> u '': '' @ title) @
            [10, 10])
       (zip [1 ..< Suc (length (filter (kept_chapter e) its))] (filter (kept_chapter e) its))"
    by (simp only:)
  with len new(3) num show ?thesis by simp
qed

lemma demo_short_nav: "length (strip (clean_html_content demo_env doc_nav)) < 100"
  unfolding demo_clean_nav by (simp add: strip_def isspace_def u_def)

lemma demo_run:
  "process_items demo_env demo_items (1, [title_line (u ''Test Book'')]) =
     Inr (2, [title_line (u ''Test Book''), u ''Intro'' @ body_a,
              chapter_marker 1 (Some (u ''Chapter One'')), u ''Chapter One'' @ body_b])"
proof -
  let ?intro = "\<lparr>get_type = ITEM_DOCUMENT, get_content = doc_intro\<rparr>"
  let ?image = "\<lparr>get_type = ITEM_IMAGE, get_content = [137, 80, 78, 71]\<rparr>"
  let ?nav = "\<lparr>get_type = ITEM_DOCUMENT, get_content = doc_nav\<rparr>"
  let ?one = "\<lparr>get_type = ITEM_DOCUMENT, get_content = doc_one\<rparr>"
  have 1: "\<And>st. process_item demo_env ?image st = Inr st"
    by (rule process_item_other) simp
  have 2: "\<And>st. process_item demo_env ?nav st = Inr st"
    by (rule process_item_short[where content = doc_nav]) (simp_all add: demo_decode demo_short_nav)
  have 3: "\<And>n ft. process_item demo_env ?intro (n, ft) = Inr (n, ft @ [u ''Intro'' @ body_a])"
    using process_item_kept[where it = ?intro and e = demo_env and content = doc_intro,
        OF _ _ demo_long_intro]
    by (simp add: demo_decode demo_not_chapter_intro demo_clean_intro)
  have 4: "\<And>n ft. process_item demo_env ?one (n, ft) =
      Inr (n + 1, ft @ [chapter_marker n (Some (u ''Chapter One'')), u ''Chapter One'' @ body_b])"
    using process_item_kept[where it = ?one and e = demo_env and content = doc_one,
        OF _ _ demo_long_one]
    by (simp add: demo_decode demo_is_chapter_one demo_clean_one demo_title_one)
  show ?thesis
    unfolding demo_items_def by (simp add: 1 2 3 4)
qed

lemma str_nat_1: "str_nat 1 = u ''1''"
  by (subst str_nat.simps) (simp add: u_def)

lemma str_nat_2: "str_nat 2 = u ''2''"
  by (subst str_nat.simps) (simp add: u_def)

lemma str_nat_12: "str_nat 12 = u ''12''"
  by (subst str_nat.simps, subst str_nat.simps) (simp add: u_def)

lemma demo_clean_epilogue:
  "clean_html_content demo_env doc_epilogue = u ''Epilogue '' @ body_a"
  by (simp add: clean_html_content_eq normalize_ws_eq decompose_all_def soup_get_text_def
      strip_def isspace_def demo_defs)

lemma strip_epilogue: "strip (u ''Epilogue '' @ body_a) = u ''Epilogue '' @ body_a"
  by (simp add: strip_def isspace_def body_a_def u_def)

lemma demo_long_epilogue: "100 \<le> length (strip (clean_html_content demo_env doc_epilogue))"
  unfolding demo_clean_epilogue strip_epilogue by (simp add: length_body_a)

lemma demo_is_chapter_epilogue: "is_chapter demo_env doc_epilogue"
  by (simp add: is_chapter_def re_search_def chapter_keywords_def ascii_lower_def demo_defs)

lemma demo_title_epilogue: "chapter_title demo_env doc_epilogue = None"
  by (simp add: chapter_title_def find_all_def demo_defs)

lemma series_run:
  "process_items demo_env series_items (1, [title_line (u ''Test Book'')]) =
     Inr (3, series_full_text)"
proof -
  let ?intro = "\<lparr>get_type = ITEM_DOCUMENT, get_content = doc_intro\<rparr>"
  let ?image = "\<lparr>get_type = ITEM_IMAGE, get_content = [137, 80, 78, 71]\<rparr>"
  let ?nav = "\<lparr>get_type = ITEM_DOCUMENT, get_content = doc_nav\<rparr>"
  let ?one = "\<lparr>get_type = ITEM_DOCUMENT, get_content = doc_one\<rparr>"
  let ?epilogue = "\<lparr>get_type = ITEM_DOCUMENT, get_content = doc_epilogue\<rparr>"
  have 1: "\<And>st. process_item demo_env ?image st = Inr st"
    by (rule process_item_other) simp
  have 2: "\<And>st. process_item demo_env ?nav st = Inr st"
    by (rule process_item_short[where content = doc_nav]) (simp_all add: demo_decode demo_short_nav)
  have 3: "\<And>n ft. process_item demo_env ?intro (n, ft) = Inr (n, ft @ [u ''Intro'' @ body_a])"
    using process_item_kept[where it = ?intro and e = demo_env and content = doc_intro,
        OF _ _ demo_long_intro]
    by (simp add: demo_decode demo_not_chapter_intro demo_clean_intro)
  have 4: "\<And>n ft. process_item demo_env ?one (n, ft) =
      Inr (n + 1, ft @ [chapter_marker n (Some (u ''Chapter One'')), u ''Chapter One'' @ body_b])"
    using process_item_kept[where it = ?one and e = demo_env and content = doc_one,
        OF _ _ demo_long_one]
    by (simp add: demo_decode demo_is_chapter_one demo_clean_one demo_title_one)
  have 5: "\<And>n ft. process_item demo_env ?epilogue (n, ft) =
      Inr (n + 1, ft @ [chapter_marker n None, u ''Epilogue '' @ body_a])"
    using process_item_kept[where it = ?epilogue and e = demo_env and content = doc_epilogue,
        OF _ _ demo_long_epilogue]
    by (simp add: demo_decode demo_is_chapter_epilogue demo_clean_epilogue demo_title_epilogue)
  have run: "process_items demo_env series_items (1, [title_line (u ''Test Book'')]) =
     Inr (3, [title_line (u ''Test Book''), u ''Intro'' @ body_a,
              chapter_marker 1 (Some (u ''Chapter One'')), u ''Chapter One'' @ body_b,
              u ''Intro'' @ body_a, chapter_marker 2 None, u ''Epilogue '' @ body_a])"
    unfolding series_items_def by (simp add: 1 2 3 4 5 numeral_2_eq_2[symmetric])
  have a: "title_line (u ''Test Book'') = u ''# Test Book'' @ [10, 10]"
    by (simp add: title_line_def u_def)
  have b: "chapter_marker 1 (Some (u ''Chapter One'')) =
      [10, 10] @ u ''# Chapter 1: Chapter One'' @ [10, 10]"
    by (simp add: titled_marker_def str_nat_1[simplified] u_def)
  have c: "chapter_marker 2 None = [10, 10] @ u ''# Chapter 2'' @ [10, 10]"
    by (simp add: plain_marker_def str_nat_2 u_def)
  show ?thesis
    using run unfolding series_full_text_def a b c .
qed

lemma series_markers:
  "filter is_marker series_full_text =
     [[10, 10] @ u ''# Chapter 1: Chapter One'' @ [10, 10],
      [10, 10] @ u ''# Chapter 2'' @ [10, 10]]"
  by (simp add: series_full_text_def is_marker_def u_def)

text \<open>
  The statement at a book with two chapters, the second one untitled, and a kept section
  that is not a chapter before each.
\<close>

theorem chapter_headers_numbered_witness:
  "process_items demo_env series_items (1, [title_line (u ''Test Book'')]) =
     Inr (3, series_full_text) \<and>
   filter is_marker series_full_text =
     [[10, 10] @ u ''# Chapter 1: Chapter One'' @ [10, 10],
      [10, 10] @ u ''# Chapter 2'' @ [10, 10]] \<and>
   length (filter (kept_chapter demo_env) series_items) = 2 \<and>
   str_nat 12 = u ''12'' \<and> decimal_value (str_nat 12) = 12"
proof -
  from chapter_headers_numbered[OF series_run, of 12]
  have "3 = Suc (length (filter (kept_chapter demo_env) series_items))"
    and "decimal_value (str_nat 12) = 12"
    by blast+
  then show ?thesis
    using series_run series_markers str_nat_12 by simp
qed

text \<open>
  Claim C2. A document item whose normalized text has fewer than 100 characters leaves the
  chapter number and the fragments as they were. Every fragment that a run adds and that is
  not a chapter header is the text of a kept item and has at least 100 characters.
\<close>

theorem short_items_skipped:
  "(get_type it = ITEM_DOCUMENT \<and> decode e (get_content it) = Inr content \<and>
    length (strip (clean_html_content e content)) < 100 \<longrightarrow>
      process_item e it st = Inr st) \<and>
   (process_items e its (k, ft) = Inr (n, ft') \<longrightarrow>
      (\<exists>new. ft' = ft @ new \<and>
         filter (\<lambda>f. \<not> is_marker f) new = map (item_text e) (filter (kept e) its) \<and>
         (\<forall>f \<in> set new. \<not> is_marker f \<longrightarrow> 100 \<le> length (strip f) \<and> 100 \<le> length f)))"
proof (intro conjI impI)
  assume "get_type it = ITEM_DOCUMENT \<and> decode e (get_content it) = Inr content \<and>
    length (strip (clean_html_content e content)) < 100"
  then show "process_item e it st = Inr st"
    using process_item_short by blast
next
  assume run: "process_items e its (k, ft) = Inr (n, ft')"
  from process_items_run[OF run] obtain new where new:
    "ft' = ft @ new"
    "filter (\<lambda>f. \<not> is_marker f) new = map (item_text e) (filter (kept e) its)"
    by blast
  have "\<forall>f \<in> set new. \<not> is_marker f \<longrightarrow> 100 \<le> length (strip f) \<and> 100 \<le> length f"
  proof (intro ballI impI)
    fix f assume "f \<in> set new" "\<not> is_marker f"
    then have "f \<in> set (filter (\<lambda>f. \<not> is_marker f) new)" by simp
    then obtain x where x: "kept e x" "f = item_text e x"
      unfolding new(2) by auto
    from kept_text_long[OF x(1)] have "100 \<le> length (strip f)"
      using x(2) by simp
    then show "100 \<le> length (strip f) \<and> 100 \<le> length f"
      using length_strip_le[of f] by linarith
  qed
  with new show "\<exists>new. ft' = ft @ new \<and>
         filter (\<lambda>f. \<not> is_marker f) new = map (item_text e) (filter (kept e) its) \<and>
         (\<forall>f \<in> set new. \<not> is_marker f \<longrightarrow> 100 \<le> length (strip f) \<and> 100 \<le> length f)"
    by blast
qed

text \<open>The statement at the example book.\<close>

theorem short_items_skipped_witness:
  "process_item demo_env \<lparr>get_type = ITEM_DOCUMENT, get_content = doc_nav\<rparr>
       (1, [title_line (u ''Test Book'')]) = Inr (1, [title_line (u ''Test Book'')]) \<and>
   is_chapter demo_env doc_nav \<and>
   (\<exists>new. [title_line (u ''Test Book''), u ''Intro'' @ body_a,
            chapter_marker 1 (Some (u ''Chapter One'')), u ''Chapter One'' @ body_b] =
           [title_line (u ''Test Book'')] @ new \<and>
      filter (\<lambda>f. \<not> is_marker f) new =
        map (item_text demo_env) (filter (kept demo_env) demo_items))"
proof -
  let ?nav = "\<lparr>get_type = ITEM_DOCUMENT, get_content = doc_nav\<rparr>"
  have h: "get_type ?nav = ITEM_DOCUMENT \<and> decode demo_env (get_content ?nav) = Inr doc_nav \<and>
    length (strip (clean_html_content demo_env doc_nav)) < 100"
    by (simp add: demo_decode demo_short_nav)
  have c: "is_chapter demo_env doc_nav"
    by (simp add: is_chapter_def re_search_def chapter_keywords_def ascii_lower_def demo_defs)
  note inst = short_items_skipped[of ?nav demo_env doc_nav "(1, [title_line (u ''Test Book'')])"
      demo_items 1 "[title_line (u ''Test Book'')]" 2
      "[title_line (u ''Test Book''), u ''Intro'' @ body_a,
        chapter_marker 1 (Some (u ''Chapter One'')), u ''Chapter One'' @ body_b]"]
  show ?thesis
    using inst h c demo_run by blast
qed

section \<open>Errors and the output file\<close>

text \<open>
  Claim C9. When the input path does not exist, \<open>epub_to_text\<close> raises
  \<open>FileNotFoundError\<close> with the message \<open>EPUB file not found: path\<close> whatever the
  libraries would do (nothing is read or parsed), \<open>main\<close> prints \<open>Error:\<close> and the message
  on the error stream, the exit code is 1 and the file system is as it was.
\<close>

theorem missing_input_fails:
  "\<not> exists w (arg_input a) \<Longrightarrow>
   epub_to_text e w (arg_input a) (arg_output a) =
     (Inl (FileNotFoundError (u ''EPUB file not found: '' @ arg_input a)), w) \<and>
   main e w a =
     \<lparr>exit_code = 1, stdout = [],
      stderr = [u ''Error: '' @ u ''EPUB file not found: '' @ arg_input a], final = w\<rparr> \<and>
   sublist (u ''EPUB file not found'')
     (str_error (FileNotFoundError (u ''EPUB file not found: '' @ arg_input a)))"
proof -
  assume missing: "\<not> exists w (arg_input a)"
  have run: "epub_to_text e w (arg_input a) (arg_output a) =
     (Inl (FileNotFoundError (u ''EPUB file not found: '' @ arg_input a)), w)"
    using missing by (simp add: epub_to_text_def)
  have "u ''EPUB file not found: '' = u ''EPUB file not found'' @ u '': ''"
    by (simp add: u_def)
  then have msg: "sublist (u ''EPUB file not found'')
     (str_error (FileNotFoundError (u ''EPUB file not found: '' @ arg_input a)))"
    by (simp only: str_error.simps append_assoc sublist_append_rightI)
  show ?thesis
    using run msg by (simp add: main_def report_def)
qed

lemma demo_missing: "\<not> exists demo_world (u ''missing.epub'')"
  by (simp add: exists_def demo_world_def u_def)

text \<open>The statement at the example book.\<close>

theorem missing_input_fails_witness:
  "\<not> exists demo_world (u ''missing.epub'') \<and>
   main demo_env demo_world
     \<lparr>arg_input = u ''missing.epub'', arg_output = u ''out/missing.txt'', arg_verbose = False\<rparr> =
     \<lparr>exit_code = 1, stdout = [],
      stderr = [u ''Error: '' @ u ''EPUB file not found: '' @ u ''missing.epub''],
      final = demo_world\<rparr>"
  using missing_input_fails[of demo_world
      "\<lparr>arg_input = u ''missing.epub'', arg_output = u ''out/missing.txt'', arg_verbose = False\<rparr>"
      demo_env] demo_missing
  by simp

text \<open>
  Claim C10. When the book has no title metadata, the index into the empty list raises
  \<open>IndexError\<close>; no default title is substituted, \<open>main\<close> reports the error, the exit code
  is 1 and the file system is as it was.
\<close>

theorem missing_title_fails:
  "exists w (arg_input a) \<Longrightarrow> read_epub e w (arg_input a) = Inr bk \<Longrightarrow>
   get_metadata bk (u ''DC'') (u ''title'') = [] \<Longrightarrow>
   epub_to_text e w (arg_input a) (arg_output a) =
     (Inl (IndexError (u ''list index out of range'')), w) \<and>
   main e w a =
     \<lparr>exit_code = 1, stdout = [], stderr = [u ''Error: '' @ u ''list index out of range''],
      final = w\<rparr>"
  by (simp add: epub_to_text_def main_def report_def)

lemma demo_untitled_exists: "exists demo_world (u ''books/untitled.epub'')"
  by (simp add: exists_def demo_world_def u_def)

lemma demo_untitled_read:
  "read_epub demo_env demo_world (u ''books/untitled.epub'') = Inr untitled_book"
  by (simp add: demo_env_def u_def)

lemma demo_untitled_metadata: "get_metadata untitled_book (u ''DC'') (u ''title'') = []"
  by (simp add: untitled_book_def)

text \<open>The statement at the example book.\<close>

theorem missing_title_fails_witness:
  "exists demo_world (u ''books/untitled.epub'') \<and>
   read_epub demo_env demo_world (u ''books/untitled.epub'') = Inr untitled_book \<and>
   get_metadata untitled_book (u ''DC'') (u ''title'') = [] \<and>
   main demo_env demo_world
     \<lparr>arg_input = u ''books/untitled.epub'', arg_output = u ''out/untitled.txt'',
      arg_verbose = True\<rparr> =
     \<lparr>exit_code = 1, stdout = [], stderr = [u ''Error: '' @ u ''list index out of range''],
      final = demo_world\<rparr>"
  using missing_title_fails[of demo_world
      "\<lparr>arg_input = u ''books/untitled.epub'', arg_output = u ''out/untitled.txt'',
        arg_verbose = True\<rparr>" demo_env untitled_book]
    demo_untitled_exists demo_untitled_read demo_untitled_metadata
  by simp

lemma write_output_cases:
  "write_output e w output_path data = (r, w') \<Longrightarrow>
     (r = None \<and> fault e = NoFault \<and> files w' = (files w)(output_path \<mapsto> utf8_encode data)) \<or>
     (\<exists>m. r = Some (OSError m) \<and> files w' = files w) \<or>
     (\<exists>k m. r = Some (OSError m) \<and> fault e = WriteFails k m \<and>
        files w' = (files w)(output_path \<mapsto> take k (utf8_encode data))) \<or>
     (r = Some (UnicodeEncodeError (encode_error_text e data)) \<and> \<not> encodable data \<and>
        files w' = (files w)(output_path \<mapsto> []))"
  by (cases "fault e") (auto simp: write_output_def split: if_splits)

text \<open>
  Claim C5, as amended. A run that succeeds leaves the UTF-8 encoding of the complete
  assembled text at the destination. A run that fails leaves every file as it was, unless
  the failure comes after the file was opened: when the write fails, the destination holds
  the first bytes of the encoding that reached it, a cut that may fall inside a
  multi-byte character; when the text cannot be encoded, the destination is empty.
\<close>

theorem output_complete_or_untouched:
  "epub_to_text e w epub_path output_path = (r, w') \<Longrightarrow>
     (case r of
        Inr msg \<Rightarrow>
          \<exists>txt. assembled_text e w epub_path = Some txt \<and> fault e = NoFault \<and>
            files w' = (files w)(output_path \<mapsto> utf8_encode txt)
      | Inl err \<Rightarrow>
          files w' = files w \<or>
          (\<exists>k m txt. fault e = WriteFails k m \<and> err = OSError m \<and>
             assembled_text e w epub_path = Some txt \<and>
             files w' = (files w)(output_path \<mapsto> take k (utf8_encode txt))) \<or>
          (\<exists>txt. assembled_text e w epub_path = Some txt \<and> \<not> encodable txt \<and>
             err = UnicodeEncodeError (encode_error_text e txt) \<and>
             files w' = (files w)(output_path \<mapsto> [])))"
proof -
  assume run: "epub_to_text e w epub_path output_path = (r, w')"
  show ?thesis
  proof (cases "exists w epub_path")
    case False
    with run show ?thesis by (auto simp: epub_to_text_def)
  next
    case ex: True
    show ?thesis
    proof (cases "read_epub e w epub_path")
      case (Inl err)
      with run ex show ?thesis by (auto simp: epub_to_text_def)
    next
      case (Inr bk)
      show ?thesis
      proof (cases "get_metadata bk (u ''DC'') (u ''title'')")
        case Nil
        with run ex Inr show ?thesis by (auto simp: epub_to_text_def)
      next
        case (Cons entry rest)
        show ?thesis
        proof (cases "process_items e (get_items bk) (1, [title_line (format_value (fst entry))])")
          case (Inl err)
          with run ex Inr Cons show ?thesis by (auto simp: epub_to_text_def)
        next
          case loop: (Inr st)
          obtain n ft where st: "st = (n, ft)" by (cases st)
          have whole: "assembled_text e w epub_path = Some (join [10] ft)"
            using Inr Cons loop st by (simp add: assembled_text_def)
          obtain wr w1 where wo: "write_output e w output_path (join [10] ft) = (wr, w1)"
            by (cases "write_output e w output_path (join [10] ft)")
          have res: "(r, w') = (case wr of Some err \<Rightarrow> (Inl err, w1)
              | None \<Rightarrow> (Inr (success_message (format_value (fst entry)) output_path), w1))"
            using run ex Inr Cons loop st wo
            by (simp add: epub_to_text_def split: option.splits)
          from write_output_cases[OF wo] res whole show ?thesis
            by (auto split: option.splits)
        qed
      qed
    qed
  qed
qed

lemma clean_html_content_fault:
  "clean_html_content (e\<lparr>fault := f\<rparr>) content = clean_html_content e content"
  by (simp add: clean_html_content_def)

lemma is_chapter_fault: "is_chapter (e\<lparr>fault := f\<rparr>) content = is_chapter e content"
  by (simp add: is_chapter_def)

lemma chapter_title_fault: "chapter_title (e\<lparr>fault := f\<rparr>) content = chapter_title e content"
  by (simp add: chapter_title_def)

lemma process_item_fault: "process_item (e\<lparr>fault := f\<rparr>) it st = process_item e it st"
  by (cases st; cases "decode e (get_content it)")
    (simp_all add: process_item_def Let_def clean_html_content_fault is_chapter_fault
      chapter_title_fault)

lemma process_items_fault: "process_items (e\<lparr>fault := f\<rparr>) its st = process_items e its st"
  by (induction its arbitrary: st) (simp_all add: process_item_fault split: sum.splits)

lemma demo_test_exists: "exists demo_world (u ''books/test.epub'')"
  by (simp add: exists_def demo_world_def u_def)

lemma demo_test_absent: "files demo_world (u ''out/test.txt'') = None"
  by (simp add: demo_world_def u_def)

lemma demo_test_read: "read_epub demo_env demo_world (u ''books/test.epub'') = Inr demo_book"
  by (simp add: demo_env_def u_def)

lemma demo_book_title:
  "get_metadata demo_book (u ''DC'') (u ''title'') = [(Some (u ''Test Book''), [])]"
  by (simp add: demo_book_def)

lemma demo_book_items: "get_items demo_book = demo_items"
  by (simp add: demo_book_def)

lemma demo_assembled:
  "assembled_text demo_env demo_world (u ''books/test.epub'') =
     Some (join [10] [title_line (u ''Test Book''), u ''Intro'' @ body_a,
                      chapter_marker 1 (Some (u ''Chapter One'')), u ''Chapter One'' @ body_b])"
  by (simp only: assembled_text_def demo_test_read demo_book_title demo_book_items
      format_value.simps fst_conv demo_run sum.case list.case prod.case)

lemma demo_encodable:
  "encodable (join [10] [title_line (u ''Test Book''), u ''Intro'' @ body_a,
                      chapter_marker 1 (Some (u ''Chapter One'')), u ''Chapter One'' @ body_b])"
  by (simp add: encodable_def title_line_def titled_marker_def str_nat_1[simplified]
      body_a_def body_b_def u_def)

lemma full_disk_read:
  "read_epub full_disk_env demo_world (u ''books/test.epub'') = Inr demo_book"
  by (simp add: full_disk_env_def demo_test_read)

lemma full_disk_run:
  "process_items full_disk_env demo_items (1, [title_line (u ''Test Book'')]) =
     Inr (2, [title_line (u ''Test Book''), u ''Intro'' @ body_a,
              chapter_marker 1 (Some (u ''Chapter One'')), u ''Chapter One'' @ body_b])"
  by (simp only: full_disk_env_def process_items_fault demo_run)

lemma full_disk_assembled:
  "assembled_text full_disk_env demo_world (u ''books/test.epub'') =
     Some (join [10] [title_line (u ''Test Book''), u ''Intro'' @ body_a,
                      chapter_marker 1 (Some (u ''Chapter One'')), u ''Chapter One'' @ body_b])"
  by (simp only: assembled_text_def full_disk_read demo_book_title demo_book_items
      format_value.simps fst_conv full_disk_run sum.case list.case prod.case)

lemma demo_convert:
  "epub_to_text demo_env demo_world (u ''books/test.epub'') (u ''out/test.txt'') =
     (Inr (success_message (u ''Test Book'') (u ''out/test.txt'')),
      demo_world\<lparr>dirs := dirs demo_world \<union> set (makedirs_targets demo_env (u ''out/test.txt'')),
        files := (files demo_world)(u ''out/test.txt'' \<mapsto>
          utf8_encode (join [10] [title_line (u ''Test Book''), u ''Intro'' @ body_a,
                           chapter_marker 1 (Some (u ''Chapter One'')),
                           u ''Chapter One'' @ body_b]))\<rparr>)"
proof -
  have nf: "fault demo_env = NoFault"
    by (simp add: demo_env_def)
  show ?thesis
    by (simp only: epub_to_text_def demo_test_exists demo_test_read demo_book_title
        demo_book_items format_value.simps fst_conv demo_run write_output_def nf Let_def
        demo_encodable not_not if_True
        sum.case list.case prod.case io_fault.case option.case not_True_eq_False if_False)
qed

lemma full_disk_convert:
  "epub_to_text full_disk_env demo_world (u ''books/test.epub'') (u ''out/test.txt'') =
     (Inl (OSError (u ''[Errno 28] No space left on device'')),
      demo_world\<lparr>dirs := dirs demo_world \<union> set (makedirs_targets full_disk_env (u ''out/test.txt'')),
        files := (files demo_world)(u ''out/test.txt'' \<mapsto> [])\<rparr>)"
proof -
  have wf: "fault full_disk_env = WriteFails 0 (u ''[Errno 28] No space left on device'')"
    by (simp add: full_disk_env_def)
  show ?thesis
    by (simp only: epub_to_text_def demo_test_exists full_disk_read demo_book_title
        demo_book_items format_value.simps fst_conv full_disk_run write_output_def wf Let_def take_0
        demo_encodable not_not if_True
        sum.case list.case prod.case io_fault.case option.case not_True_eq_False if_False)
qed

text \<open>
  Claim C5, as stated, fails: with no space left on the device the file is created by
  \<open>open\<close>, the write raises, and an empty file stays at a destination where there was
  none, although the assembled text is not empty.
\<close>

theorem truncated_output_counterexample:
  "files demo_world (u ''out/test.txt'') = None \<and>
   assembled_text full_disk_env demo_world (u ''books/test.epub'') =
     Some (join [10] [title_line (u ''Test Book''), u ''Intro'' @ body_a,
                      chapter_marker 1 (Some (u ''Chapter One'')), u ''Chapter One'' @ body_b]) \<and>
   join [10] [title_line (u ''Test Book''), u ''Intro'' @ body_a,
              chapter_marker 1 (Some (u ''Chapter One'')), u ''Chapter One'' @ body_b] \<noteq> [] \<and>
   fst (epub_to_text full_disk_env demo_world (u ''books/test.epub'') (u ''out/test.txt'')) =
     Inl (OSError (u ''[Errno 28] No space left on device'')) \<and>
   files (snd (epub_to_text full_disk_env demo_world (u ''books/test.epub'') (u ''out/test.txt'')))
     (u ''out/test.txt'') = Some []"
proof -
  have "join [10] [title_line (u ''Test Book''), u ''Intro'' @ body_a,
              chapter_marker 1 (Some (u ''Chapter One'')), u ''Chapter One'' @ body_b] \<noteq> []"
    by (simp add: title_line_def)
  then show ?thesis
    by (simp add: demo_test_absent full_disk_assembled full_disk_convert)
qed

lemma limit_convert:
  "epub_to_text limit_env demo_world (u ''books/cafe.epub'') (u ''out/cafe.txt'') =
     (Inl (OSError (u ''[Errno 27] File too large'')),
      demo_world\<lparr>dirs := dirs demo_world \<union> set (makedirs_targets limit_env (u ''out/cafe.txt'')),
        files := (files demo_world)(u ''out/cafe.txt'' \<mapsto> [35, 32, 67, 97, 102, 195])\<rparr>)"
proof -
  have wf: "fault limit_env = WriteFails 6 (u ''[Errno 27] File too large'')"
    by (simp add: limit_env_def)
  have ex: "exists demo_world (u ''books/cafe.epub'')"
    by (simp add: exists_def demo_world_def u_def)
  have rd: "read_epub limit_env demo_world (u ''books/cafe.epub'') = Inr cafe_book"
    by (simp add: limit_env_def demo_env_def u_def)
  have ti: "get_metadata cafe_book (u ''DC'') (u ''title'') = [(Some [67, 97, 102, 233], [])]"
    by (simp add: cafe_book_def)
  have it: "get_items cafe_book = []"
    by (simp add: cafe_book_def)
  have tl: "join [10] [title_line [67, 97, 102, 233]] = [35, 32, 67, 97, 102, 233, 10, 10]"
    by (simp add: title_line_def u_def)
  have en: "encodable [35, 32, 67, 97, 102, 233, 10, 10]"
    by (simp add: encodable_def)
  have by6: "take 6 (utf8_encode [35, 32, 67, 97, 102, 233, 10, 10]) = [35, 32, 67, 97, 102, 195]"
    by (simp add: utf8_encode_def utf8_encode_char_def)
  show ?thesis
    by (simp only: epub_to_text_def ex rd ti it format_value.simps fst_conv process_items.simps
        tl write_output_def wf Let_def en by6 not_not if_True
        sum.case list.case prod.case io_fault.case option.case not_True_eq_False if_False)
qed

lemma limit_assembled:
  "assembled_text limit_env demo_world (u ''books/cafe.epub'') =
     Some [35, 32, 67, 97, 102, 233, 10, 10]"
  by (simp add: assembled_text_def limit_env_def demo_env_def cafe_book_def title_line_def u_def)

lemma cafe_encoded:
  "utf8_encode [35, 32, 67, 97, 102, 233, 10, 10] = [35, 32, 67, 97, 102, 195, 169, 10, 10]"
  by (simp add: utf8_encode_def utf8_encode_char_def)

text \<open>
  The statement at the example book, and at a book whose title ends in an accented letter
  under a limit of six bytes on the file: the file ends with the first of the two bytes
  that encode the letter.
\<close>

theorem output_complete_or_untouched_witness:
  "fst (epub_to_text demo_env demo_world (u ''books/test.epub'') (u ''out/test.txt'')) =
     Inr (success_message (u ''Test Book'') (u ''out/test.txt'')) \<and>
   files (snd (epub_to_text demo_env demo_world (u ''books/test.epub'') (u ''out/test.txt''))) =
     (files demo_world)(u ''out/test.txt'' \<mapsto>
        utf8_encode (join [10] [title_line (u ''Test Book''), u ''Intro'' @ body_a,
                         chapter_marker 1 (Some (u ''Chapter One'')),
                         u ''Chapter One'' @ body_b])) \<and>
   fst (epub_to_text limit_env demo_world (u ''books/cafe.epub'') (u ''out/cafe.txt'')) =
     Inl (OSError (u ''[Errno 27] File too large'')) \<and>
   assembled_text limit_env demo_world (u ''books/cafe.epub'') =
     Some [35, 32, 67, 97, 102, 233, 10, 10] \<and>
   utf8_encode [35, 32, 67, 97, 102, 233, 10, 10] = [35, 32, 67, 97, 102, 195, 169, 10, 10] \<and>
   files (snd (epub_to_text limit_env demo_world (u ''books/cafe.epub'') (u ''out/cafe.txt'')))
     (u ''out/cafe.txt'') = Some [35, 32, 67, 97, 102, 195]"
proof -
  let ?run = "epub_to_text demo_env demo_world (u ''books/test.epub'') (u ''out/test.txt'')"
  have ok: "fst ?run = Inr (success_message (u ''Test Book'') (u ''out/test.txt''))"
    by (simp add: demo_convert)
  have "?run = (fst ?run, snd ?run)"
    by simp
  from output_complete_or_untouched[OF this] ok
  have "\<exists>t. assembled_text demo_env demo_world (u ''books/test.epub'') = Some t \<and>
      files (snd ?run) = (files demo_world)(u ''out/test.txt'' \<mapsto> utf8_encode t)"
    by auto
  then have first: "files (snd ?run) =
     (files demo_world)(u ''out/test.txt'' \<mapsto>
        utf8_encode (join [10] [title_line (u ''Test Book''), u ''Intro'' @ body_a,
                         chapter_marker 1 (Some (u ''Chapter One'')),
                         u ''Chapter One'' @ body_b]))"
    unfolding demo_assembled by auto
  show ?thesis
    using ok first limit_assembled cafe_encoded by (simp add: limit_convert)
qed

section \<open>A script element inside a heading\<close>














end
